theory Spec2Isabelle
  imports Main "HOL-Library.Word"
begin

section \<open>C strings and the library functions main.c relies on\<close>

text \<open>
  A C \<open>char\<close> is an Isabelle \<^typ>\<open>char\<close> (one byte), a buffer is a \<^typ>\<open>string\<close>.
  The string held by a buffer ends before its first NUL byte.
\<close>

definition cstr :: "string \<Rightarrow> string" where
  "cstr buf = takeWhile (\<lambda>c. c \<noteq> CHR 0x00) buf"

definition strlen :: "string \<Rightarrow> nat" where
  "strlen buf = length (cstr buf)"

text \<open>\<open>strlcpy(dst, src, size)\<close> and \<open>strlcat(dst, src, size)\<close>, as the string left in \<open>dst\<close>.\<close>

definition strlcpy :: "string \<Rightarrow> nat \<Rightarrow> string" where
  "strlcpy src siz = take (siz - 1) (cstr src)"

definition strlcat :: "string \<Rightarrow> string \<Rightarrow> nat \<Rightarrow> string" where
  "strlcat dst src siz = (if length dst < siz then take (siz - 1) (dst @ cstr src) else dst)"

text \<open>\<open>tolower\<close> and \<open>strcasecmp(a, b) == 0\<close> in the C locale.\<close>

definition tolower_c :: "char \<Rightarrow> char" where
  "tolower_c c =
     (case map_of (zip ''ABCDEFGHIJKLMNOPQRSTUVWXYZ'' ''abcdefghijklmnopqrstuvwxyz'') c of
        Some l \<Rightarrow> l
      | None \<Rightarrow> c)"

definition strcasecmp_eq :: "string \<Rightarrow> string \<Rightarrow> bool" where
  "strcasecmp_eq a b = (map tolower_c (cstr a) = map tolower_c (cstr b))"

text \<open>The \<open>%d\<close> conversion of \<open>snprintf\<close> for a value that is not negative.\<close>

fun dec :: "nat \<Rightarrow> string" where
  "dec n = (if n < 10 then [''0123456789'' ! n]
            else dec (n div 10) @ [''0123456789'' ! (n mod 10)])"

declare dec.simps [simp del]

text \<open>
  What main.c calls and does not define: \<open>fnmatch\<close> of libc, \<open>hlist_get\<close> of utils.c, the
  connectors of socket.c and forward.c, the constant \<open>MINIBUF_SIZE\<close> of utils.h, and whether a
  plain \<open>char\<close> of the platform is signed. They are parameters of the model. So is what the
  platform does with a count that is negative as an \<open>int\<close>: \<open>read_negative c inp\<close> is what
  \<open>read(cd, upass, c)\<close> returns for such a count \<open>c\<close>, with the input it leaves unread, and
  \<open>upass_unread\<close> is the string found in the buffer that \<open>zmalloc(c + 1)\<close> has returned for
  it (\<open>zmalloc\<close> of utils.c is taken to return for every size).
\<close>

record extern =
  fnmatch :: "string \<Rightarrow> string \<Rightarrow> int"
  hlist_get :: "(string \<times> string) list \<Rightarrow> string \<Rightarrow> string option"
  host_connect :: "string \<Rightarrow> nat \<Rightarrow> int"
  proxy_connect :: int
  prepare_http_connect :: "int \<Rightarrow> string \<Rightarrow> int"
  MINIBUF_SIZE :: nat
  plain_char_signed :: bool
  read_negative :: "int \<Rightarrow> string \<Rightarrow> int \<times> string"
  upass_unread :: string

text \<open>The compile-time switches of main.c.\<close>

record build =
  ENABLE_PACPARSER :: bool
  ENABLE_KERBEROS :: bool

text \<open>The global variables the worker threads read.\<close>

record globals =
  debug :: int
  serialize :: int
  pacparser_initialized :: int
  noproxy_list :: "string list"
  users_list :: "(string \<times> string) list"

text \<open>
  Modelled from the spec: \<open>hlist_count\<close> of utils.c is absent; the spec describes the user
  table as an association list, and the count is its number of entries.
\<close>

definition hlist_count :: "(string \<times> string) list \<Rightarrow> nat" where
  "hlist_count list = length list"

section \<open>The no-proxy list\<close>

text \<open>
  \<open>noproxy_add\<close>: \<open>strtok_r(spec, ", ", &save)\<close> cuts the option at commas and blanks; every
  token is added to the list. \<open>strtok_all cur s\<close> is the token loop, \<open>cur\<close> the token being read.

  Modelled from the spec: \<open>plist_add\<close> of utils.c is absent; the spec has the no-proxy
  patterns in an ordered list, and a new pattern is put at its end.
\<close>

fun strtok_all :: "string \<Rightarrow> string \<Rightarrow> string list" where
  "strtok_all cur [] = (if cur = [] then [] else [cur])"
| "strtok_all cur (c # cs) =
     (if c = CHR '','' \<or> c = CHR '' ''
      then (if cur = [] then strtok_all [] cs else cur # strtok_all [] cs)
      else strtok_all (cur @ [c]) cs)"

definition noproxy_add :: "string list \<Rightarrow> string \<Rightarrow> string list" where
  "noproxy_add list spec = list @ strtok_all [] (cstr spec)"

text \<open>\<open>noproxy_match\<close>: the first pattern that is not empty and that \<open>fnmatch\<close> accepts decides.\<close>

fun noproxy_match :: "extern \<Rightarrow> string list \<Rightarrow> string \<Rightarrow> bool" where
  "noproxy_match ex [] addr = False"
| "noproxy_match ex (aux # list) addr =
     (if strlen aux \<noteq> 0 \<and> fnmatch ex aux addr = 0 then True
      else noproxy_match ex list addr)"

section \<open>The tunnel worker\<close>

datatype tunnel_call = Direct_Tunnel | Forward_Tunnel

text \<open>\<open>tunnel_thread\<close>: the copy of the target is cut at its first colon, then matched.\<close>

definition tunnel_thread :: "extern \<Rightarrow> globals \<Rightarrow> string \<Rightarrow> tunnel_call" where
  "tunnel_thread ex g thost =
     (let hostname = takeWhile (\<lambda>c. c \<noteq> CHR '':'') (cstr thost)
      in if noproxy_match ex (noproxy_list g) hostname then Direct_Tunnel else Forward_Tunnel)"

section \<open>The HTTP proxy worker\<close>

text \<open>
  Of a request the worker reads the host name and whether the header \<open>Proxy-Connection\<close>
  holds \<open>keep-alive\<close>. A forwarder returns NULL, a sentinel (\<open>(void *)-1\<close>, and \<open>(void *)-2\<close>
  in a PAC build) or a request to be served next.
\<close>

record rr_data =
  hostname :: string
  proxy_keep_alive :: bool

datatype ret = Ret_NULL | Ret_Sentinel | Ret_Request rr_data

datatype handler = Direct_Request | Pac_Forward_Request | Forward_Request

text \<open>The choice between the direct and the forwarding handler (lines 494 to 511).\<close>

definition route_request :: "extern \<Rightarrow> build \<Rightarrow> globals \<Rightarrow> rr_data \<Rightarrow> handler" where
  "route_request ex b g request =
     (if noproxy_match ex (noproxy_list g) (hostname request) then Direct_Request
      else if ENABLE_PACPARSER b \<and> pacparser_initialized g \<noteq> 0 then Pac_Forward_Request
      else Forward_Request)"

text \<open>
  The inner loop of \<open>proxy_thread\<close>. The forwarders are outside main.c: what they return is
  taken from the list \<open>rets\<close>, one element for each call. The result is the calls made, with
  (unless the list ran out in a call) the keep-alive flag and the last value returned.
\<close>

fun serve_request ::
  "extern \<Rightarrow> build \<Rightarrow> globals \<Rightarrow> rr_data \<Rightarrow> ret list \<Rightarrow>
   (handler \<times> rr_data) list \<times> (bool \<times> ret) option \<times> ret list" where
  "serve_request ex b g request [] = ([(route_request ex b g request, request)], None, [])"
| "serve_request ex b g request (r # rets) =
     (case r of
        Ret_Request request' \<Rightarrow>
          (case serve_request ex b g request' rets of
             (calls, fin, rets') \<Rightarrow> ((route_request ex b g request, request) # calls, fin, rets'))
      | _ \<Rightarrow> ([(route_request ex b g request, request)], Some (proxy_keep_alive request, r), rets))"

text \<open>
  The outer loop: \<open>requests\<close> are the requests \<open>headers_recv\<close> reads from the client, one for
  each round; when none is left \<open>headers_recv\<close> fails and the worker leaves the loop.
\<close>

fun proxy_thread ::
  "extern \<Rightarrow> build \<Rightarrow> globals \<Rightarrow> rr_data list \<Rightarrow> ret list \<Rightarrow> (handler \<times> rr_data) list" where
  "proxy_thread ex b g [] rets = []"
| "proxy_thread ex b g (request # requests) rets =
     (case serve_request ex b g request rets of
        (calls, None, rets') \<Rightarrow> calls
      | (calls, Some (keep_alive, r), rets') \<Rightarrow>
          if keep_alive \<and> r \<noteq> Ret_Sentinel \<and> serialize g = 0
          then calls @ proxy_thread ex b g requests rets'
          else calls)"

section \<open>The SOCKS5 worker\<close>

text \<open>
  The client's bytes are the list \<open>inp\<close>, in the order they arrive; \<open>read(cd, buf, n)\<close>
  returns \<open>n\<close> when \<open>n\<close> bytes are left and fewer (the worker then gives up) when the client
  stops before. The bytes the worker writes are collected in order; a failed write is only
  logged by the source and is not modelled.
\<close>

definition read_n :: "nat \<Rightarrow> string \<Rightarrow> (string \<times> string) option" where
  "read_n n inp = (if n \<le> length inp then Some (take n inp, drop n inp) else None)"

text \<open>The path the worker takes to the target, and what one connection comes to.\<close>

datatype route = Direct_Connect string nat | Via_Proxy string

record socks5_run =
  sent :: string
  route :: "route option"
  tunnel :: bool

text \<open>
  A run ends at \<open>bailout\<close> (the connection is closed there), after the tunnel if one was
  made.
\<close>

datatype socks5_end = Closed socks5_run

definition bailout :: "string \<Rightarrow> socks5_run" where
  "bailout w = \<lparr>sent = w, route = None, tunnel = False\<rparr>"

text \<open>
  The choice of the method (lines 634 to 654). One loop over the offered methods:
  \<open>for (i = 0; i < c && found < 0; ++i)\<close>; first for 0x00 when the proxy is open (no user
  is configured), then for 0x02 when nothing is found yet.
\<close>

fun scan_auths :: "char \<Rightarrow> string \<Rightarrow> int \<Rightarrow> int" where
  "scan_auths m [] found = found"
| "scan_auths m (a # auths) found =
     (if found < 0 then scan_auths m auths (if a = m then of_char a else found) else found)"

definition select_method :: "globals \<Rightarrow> string \<Rightarrow> int" where
  "select_method g auths =
     (let open = (hlist_count (users_list g) = 0);
          found = (if open then scan_auths (CHR 0x00) auths (- 1) else - 1)
      in if found < 0 then scan_auths (CHR 0x02) auths found else found)"

definition char_to_int :: "extern \<Rightarrow> char \<Rightarrow> int" where
  "char_to_int ex c =
     (if plain_char_signed ex \<and> 128 \<le> (of_char c :: int) then of_char c - 256 else of_char c)"

text \<open>
  The check of the credentials against the list, lines 715 to 725 (\<open>True\<close>: the reply is
  success). \<open>char_to_int\<close> is the conversion of \<open>i = uname[c]\<close>, the password length.
\<close>

definition check_credentials :: "extern \<Rightarrow> globals \<Rightarrow> string \<Rightarrow> string \<Rightarrow> bool" where
  "check_credentials ex g uname upass =
     (hlist_count (users_list g) = 0 \<or>
      (case hlist_get ex (users_list g) (cstr uname) of
         None \<Rightarrow> False
       | Some tmp \<Rightarrow> cstr tmp = cstr upass))"

text \<open>
  The username/password sub-negotiation (lines 674 to 742). \<open>Inl\<close>: the run is over;
  \<open>Inr\<close>: the bytes written so far and the input left, for the request that follows.
  The password length \<open>i\<close> is read through a plain \<open>char\<close>. Where it is negative the worker
  goes on with it: \<open>read\<close> gets it as its count, and only when \<open>read\<close> returns that very
  number are the credentials checked, against what the buffer holds. (The write of
  \<open>upass[c] = 0\<close> then lands before the buffer; the model leaves it out.)
\<close>

definition plain_auth ::
  "extern \<Rightarrow> globals \<Rightarrow> string \<Rightarrow> string \<Rightarrow> socks5_end + (string \<times> string)" where
  "plain_auth ex g w inp =
     (case read_n 2 inp of
        None \<Rightarrow> Inl (Closed (bailout (w @ [CHR 0x01, CHR 0xFF])))
      | Some (bs, inp1) \<Rightarrow>
          (let c = of_char (bs ! 1) in
           case read_n (c + 1) inp1 of
             None \<Rightarrow> Inl (Closed (bailout w))
           | Some (uname, inp2) \<Rightarrow>
               (let i = char_to_int ex (uname ! c) in
                if i < 0 then
                  (case read_negative ex i inp2 of
                     (r, inp3) \<Rightarrow>
                       if r \<noteq> i then Inl (Closed (bailout w))
                       else if check_credentials ex g (take c uname) (upass_unread ex)
                       then Inr (w @ [CHR 0x01, CHR 0x00], inp3)
                       else Inl (Closed (bailout (w @ [CHR 0x01, CHR 0xFF]))))
                else
                  (case read_n (nat i) inp2 of
                     None \<Rightarrow> Inl (Closed (bailout w))
                   | Some (upass, inp3) \<Rightarrow>
                       if check_credentials ex g (take c uname) upass
                       then Inr (w @ [CHR 0x01, CHR 0x00], inp3)
                       else Inl (Closed (bailout (w @ [CHR 0x01, CHR 0xFF])))))))"

text \<open>The ten bytes of a reply to the request: version, code, reserved, a dummy IPv4 address.\<close>

definition reply :: "char \<Rightarrow> string" where
  "reply code = [CHR 0x05, code, CHR 0x00, CHR 0x01] @ replicate 6 (CHR 0x00)"

text \<open>
  The address as a character string (lines 787 to 794): dotted decimal for IPv4, the name
  otherwise.
\<close>

definition address_text :: "extern \<Rightarrow> char \<Rightarrow> string \<Rightarrow> string" where
  "address_text ex atyp addr =
     (if atyp = CHR 0x01
      then take (MINIBUF_SIZE ex - 1)
             (dec (of_char (addr ! 0)) @ ''.'' @ dec (of_char (addr ! 1)) @ ''.'' @
              dec (of_char (addr ! 2)) @ ''.'' @ dec (of_char (addr ! 3)))
      else strlcpy addr (MINIBUF_SIZE ex))"

text \<open>Direct or proxy connect, the reply, and the tunnel (lines 803 to 851).\<close>

definition socks5_connect :: "extern \<Rightarrow> globals \<Rightarrow> string \<Rightarrow> string \<Rightarrow> nat \<Rightarrow> socks5_run" where
  "socks5_connect ex g w thost port =
     (if noproxy_match ex (noproxy_list g) thost
      then
        (let sd = host_connect ex thost port
         in if sd \<ge> 0
            then \<lparr>sent = w @ reply (CHR 0x00), route = Some (Direct_Connect thost port), tunnel = True\<rparr>
            else \<lparr>sent = w @ reply (CHR 0x01), route = Some (Direct_Connect thost port), tunnel = False\<rparr>)
      else
        (let tport = take (MINIBUF_SIZE ex - 1) (dec port);
             thost' = strlcat (strlcat thost '':'' (MINIBUF_SIZE ex)) tport (MINIBUF_SIZE ex);
             sd = proxy_connect ex;
             i = (if sd \<ge> 0 then prepare_http_connect ex sd thost' else 0)
         in if i = 0
            then \<lparr>sent = w @ reply (CHR 0x01), route = Some (Via_Proxy thost'), tunnel = False\<rparr>
            else \<lparr>sent = w @ reply (CHR 0x00), route = Some (Via_Proxy thost'), tunnel = True\<rparr>))"

text \<open>The request (lines 744 to 801): its four leading bytes, the address, the port.\<close>

definition socks5_request :: "extern \<Rightarrow> globals \<Rightarrow> string \<Rightarrow> string \<Rightarrow> socks5_run" where
  "socks5_request ex g w inp =
     (case read_n 4 inp of
        None \<Rightarrow> bailout w
      | Some (bs, inp1) \<Rightarrow>
          if bs ! 1 \<noteq> CHR 0x01 \<or> (bs ! 3 \<noteq> CHR 0x01 \<and> bs ! 3 \<noteq> CHR 0x03)
          then bailout (w @ reply (CHR 0x02))
          else
            (case (if bs ! 3 = CHR 0x01 then Some (4, inp1)
                   else (case read_n 1 inp1 of
                           None \<Rightarrow> None
                         | Some (string_length, inp') \<Rightarrow> Some (of_char (string_length ! 0), inp'))) of
               None \<Rightarrow> bailout w
             | Some (c, inp2) \<Rightarrow>
                 (case read_n c inp2 of
                    None \<Rightarrow> bailout w
                  | Some (addr, inp3) \<Rightarrow>
                      (case read_n 2 inp3 of
                         None \<Rightarrow> bailout w
                       | Some (port, inp4) \<Rightarrow>
                           socks5_connect ex g w (address_text ex (bs ! 3) addr)
                             (256 * of_char (port ! 0) + of_char (port ! 1))))))"

text \<open>
  \<open>socks5_thread\<close>: version and methods (lines 615 to 632), the method chosen and its
  announcement (lines 634 to 672), the sub-negotiation, the request.
\<close>

definition socks5_thread :: "extern \<Rightarrow> globals \<Rightarrow> string \<Rightarrow> socks5_end" where
  "socks5_thread ex g inp =
     (case read_n 2 inp of
        None \<Rightarrow> Closed (bailout [])
      | Some (bs, inp1) \<Rightarrow>
          if bs ! 0 \<noteq> CHR 0x05 then Closed (bailout [])
          else
            (case read_n (of_char (bs ! 1)) inp1 of
               None \<Rightarrow> Closed (bailout [])
             | Some (auths, inp2) \<Rightarrow>
                 (let found = select_method g auths
                  in if found < 0 then Closed (bailout [CHR 0x05, CHR 0xFF])
                     else if found \<noteq> 0
                     then (case plain_auth ex g [CHR 0x05, char_of found] inp2 of
                             Inl e \<Rightarrow> e
                           | Inr (w, inp3) \<Rightarrow> Closed (socks5_request ex g w inp3))
                     else Closed (socks5_request ex g [CHR 0x05, char_of found] inp2))))"

section \<open>The credentials and the startup of main\<close>

text \<open>
  \<open>struct auth_s\<close> (auth.h), as far as main.c uses it. The three \<open>pass\<close> fields are byte
  buffers.
\<close>

record auth_s =
  hashntlm2 :: int
  hashnt :: int
  hashlm :: int
  haskrb :: int
  flags :: int
  passntlm2 :: string
  passnt :: string
  passlm :: string
  user :: string
  domain :: string

text \<open>
  What the startup calls and main.c does not define: the hash functions of ntlm.c,
  \<open>scanmem\<close> of utils.c (\<open>None\<close> for a string that is no hash), the Kerberos constant and
  \<open>check_credential\<close> of kerberos.c, \<open>atoi\<close> of libc, and what the operating system answers.
\<close>

record startup_extern =
  ntlm_hash_nt_password :: "string \<Rightarrow> string"
  ntlm_hash_lm_password :: "string \<Rightarrow> string"
  ntlm2_hash_password :: "string \<Rightarrow> string \<Rightarrow> string \<Rightarrow> string"
  scanmem :: "string \<Rightarrow> nat \<Rightarrow> string option"
  KRB_FORCE_USE_KRB :: int
  check_credential :: int
  atoi :: "string \<Rightarrow> int"
  pac_file_opens :: bool
  fork :: int
  getuid :: nat
  geteuid :: nat
  getpwnam :: "string \<Rightarrow> (nat \<times> nat) option"
  setgid :: "int \<Rightarrow> int"
  setuid :: "int \<Rightarrow> int"
  pidfile_open :: int
  pidfile_written :: bool

text \<open>
  The local and global variables of \<open>main\<close> once the options and the configuration file are
  read and the password prompt is over (line 1586). A listener list holds the socket
  descriptor of each listener as key and, for a tunnel, the target \<open>host:port\<close>.
\<close>

record config =
  interactivehash :: int
  interactivepwd :: int
  magic_detect :: "string option"
  pac :: int
  parent_list :: "string list"
  proxyd_list :: "(nat \<times> string option) list"
  socksd_list :: "(nat \<times> string option) list"
  tunneld_list :: "(nat \<times> string option) list"
  cauth :: string
  cflags :: int
  cpassword :: string
  cpassntlm2 :: string
  cpassnt :: string
  cpasslm :: string
  cuser :: string
  cdomain :: string
  ntlmbasic :: int
  asdaemon :: int
  cuid :: string
  cpidfile :: string

text \<open>The places where the process ends, and the status it ends with.\<close>

datatype exit_point =
    Pac_File_Missing | Parent_Missing | No_Proxy_Port | Unknown_Auth | Invalid_Hash
  | Magic_Detect_Done | Hashes_Printed | Password_Missing | Fork_Failed | Fork_Parent
  | Uid_Invalid | Setgid_Failed | Setuid_Failed | Pidfile_Error | Loop_Left

type_synonym exit = "exit_point \<times> int"

text \<open>
  Modelled from the spec: \<open>myexit\<close> and \<open>croak\<close> of utils.c are absent. The spec gives the
  exit codes (0 normal, 1 startup failure): \<open>myexit(rc)\<close> ends the process with status \<open>rc\<close>,
  \<open>croak\<close> reports its message and ends it with status 1.
\<close>

definition myexit :: "exit_point \<Rightarrow> int \<Rightarrow> exit" where
  "myexit p rc = (p, rc)"

definition croak :: "exit_point \<Rightarrow> exit" where
  "croak p = myexit p 1"

text \<open>
  Modelled from the spec: \<open>is_memory_all_zero\<close> of utils.c is absent; a hash the spec calls
  absent is a buffer whose bytes are all zero.
\<close>

definition is_memory_all_zero :: "string \<Rightarrow> bool" where
  "is_memory_all_zero buf = list_all (\<lambda>c. c = CHR 0x00) buf"

text \<open>
  Modelled from the spec: the macro \<open>auth_memcpy(creds, field, src, len)\<close> of auth.h is
  absent; the spec has the hashes stored in the credential: the first \<open>len\<close> bytes of the
  field become those of \<open>src\<close>.
\<close>

definition auth_memcpy :: "string \<Rightarrow> string \<Rightarrow> nat \<Rightarrow> string" where
  "auth_memcpy field src len = take len src @ drop len field"

text \<open>\<open>memset(buf, 0, n)\<close>.\<close>

definition memset0 :: "string \<Rightarrow> nat \<Rightarrow> string" where
  "memset0 buf n = replicate (min n (length buf)) (CHR 0x00) @ drop n buf"

text \<open>
  The option \<open>-p\<close> (lines 1022 to 1030): the password is copied into the buffer \<open>cpassword\<close>,
  which \<open>zmalloc\<close> has filled with zero bytes, and the argument is overwritten with stars.
  The result is the buffer and the argument.
\<close>

definition option_p :: "extern \<Rightarrow> string \<Rightarrow> string \<times> string" where
  "option_p ex optarg =
     (let s = strlcpy optarg (MINIBUF_SIZE ex)
      in (s @ replicate (MINIBUF_SIZE ex - length s) (CHR 0x00),
          replicate (strlen optarg) (CHR ''*'') @ drop (strlen optarg) optarg))"

text \<open>
  \<open>fgets(buf, n, stdin)\<close> of libc, where \<open>inp\<close> is what \<open>stdin\<close> holds up to its end: the
  characters up to the first newline and the newline, \<open>n - 1\<close> of them at most, are stored at
  the start of the buffer with a NUL byte behind them; the buffer is left as it is when
  there is no character to read.
\<close>

definition fgets :: "string \<Rightarrow> nat \<Rightarrow> string \<Rightarrow> string" where
  "fgets buf n inp =
     (let line = take (n - 1)
                   (takeWhile (\<lambda>c. c \<noteq> CHR 0x0A) inp @ take 1 (dropWhile (\<lambda>c. c \<noteq> CHR 0x0A) inp))
      in if line = [] then buf else line @ CHR 0x00 # drop (length line + 1) buf)"

text \<open>
  "Last chance to get password from the user" (lines 1570 to 1585), from the configuration
  before the prompt to the one after it: the line typed is read into the buffer \<open>cpassword\<close>,
  over what the option \<open>-p\<close> or the configuration file has put there, and the newline at its
  end is cut off. \<open>None\<close>: the source reads the byte before the buffer.
\<close>

definition prompt_password :: "extern \<Rightarrow> config \<Rightarrow> string \<Rightarrow> config option" where
  "prompt_password ex cf inp =
     (if interactivehash cf \<noteq> 0 \<or> magic_detect cf \<noteq> None \<or> (interactivepwd cf \<noteq> 0 \<and> ntlmbasic cf = 0)
      then
        (let buf = fgets (cpassword cf) (MINIBUF_SIZE ex) inp;
             i = int (strlen buf) - 1
         in if i < 0 then None
            else if buf ! nat i = CHR 0x0A
            then
              (if i - 1 < 0 then None
               else if buf ! nat (i - 1) = CHR 0x0D
               then Some (cf\<lparr>cpassword := buf[nat i := CHR 0x00, nat (i - 1) := CHR 0x00]\<rparr>)
               else Some (cf\<lparr>cpassword := buf[nat i := CHR 0x00]\<rparr>))
            else Some (cf\<lparr>cpassword := buf\<rparr>))
      else Some cf)"

text \<open>The selected NTLM hash combination (lines 1517 to 1553).\<close>

definition parse_auth :: "build \<Rightarrow> startup_extern \<Rightarrow> string \<Rightarrow> auth_s \<Rightarrow> exit + auth_s" where
  "parse_auth b sx auth creds =
     (if strlen auth \<noteq> 0 then
        if strcasecmp_eq ''ntlm'' auth
        then Inr (creds\<lparr>hashnt := 1, hashlm := 1, hashntlm2 := 0\<rparr>)
        else if strcasecmp_eq ''nt'' auth
        then Inr (creds\<lparr>hashnt := 1, hashlm := 0, hashntlm2 := 0\<rparr>)
        else if strcasecmp_eq ''lm'' auth
        then Inr (creds\<lparr>hashnt := 0, hashlm := 1, hashntlm2 := 0\<rparr>)
        else if strcasecmp_eq ''ntlmv2'' auth
        then Inr (creds\<lparr>hashnt := 0, hashlm := 0, hashntlm2 := 1\<rparr>)
        else if strcasecmp_eq ''ntlm2sr'' auth
        then Inr (creds\<lparr>hashnt := 2, hashlm := 0, hashntlm2 := 0\<rparr>)
        else if ENABLE_KERBEROS b \<and> strcasecmp_eq ''gss'' auth
        then Inr (creds\<lparr>haskrb := KRB_FORCE_USE_KRB sx, hashnt := 0, hashlm := 0, hashntlm2 := 0\<rparr>)
        else Inl (myexit Unknown_Auth 1)
      else Inr creds)"

text \<open>
  The hashes (lines 1594 to 1637): from \<open>PassNTLMv2\<close>, \<open>PassNT\<close> and \<open>PassLM\<close> when there is
  no plaintext password; otherwise from the password, which is then removed from the memory.
  The result is the credential and the buffer \<open>cpassword\<close>.
\<close>

definition hash_option :: "startup_extern \<Rightarrow> string \<Rightarrow> string \<Rightarrow> exit + string" where
  "hash_option sx chash field =
     (if strlen chash \<noteq> 0 then
        (case scanmem sx (cstr chash) 8 of
           None \<Rightarrow> Inl (Invalid_Hash, 1)
         | Some tmp \<Rightarrow> Inr (auth_memcpy field tmp 16))
      else Inr field)"

definition load_password :: "startup_extern \<Rightarrow> config \<Rightarrow> auth_s \<Rightarrow> exit + (auth_s \<times> string)" where
  "load_password sx cf creds =
     (if strlen (cpassword cf) = 0 then
        (case hash_option sx (cpassntlm2 cf) (passntlm2 creds) of
           Inl e \<Rightarrow> Inl e
         | Inr p2 \<Rightarrow>
             (case hash_option sx (cpassnt cf) (passnt creds) of
                Inl e \<Rightarrow> Inl e
              | Inr pnt \<Rightarrow>
                  (case hash_option sx (cpasslm cf) (passlm creds) of
                     Inl e \<Rightarrow> Inl e
                   | Inr plm \<Rightarrow>
                       Inr (creds\<lparr>passntlm2 := p2, passnt := pnt, passlm := plm\<rparr>, cpassword cf))))
      else
        (let utility = (magic_detect cf \<noteq> None \<or> interactivehash cf \<noteq> 0);
             c1 = (if hashnt creds \<noteq> 0 \<or> utility
                   then creds\<lparr>passnt :=
                          auth_memcpy (passnt creds) (ntlm_hash_nt_password sx (cstr (cpassword cf))) 21\<rparr>
                   else creds);
             c2 = (if hashlm c1 \<noteq> 0 \<or> utility
                   then c1\<lparr>passlm :=
                          auth_memcpy (passlm c1) (ntlm_hash_lm_password sx (cstr (cpassword cf))) 21\<rparr>
                   else c1);
             c3 = (if hashntlm2 c2 \<noteq> 0 \<or> utility
                   then c2\<lparr>passntlm2 :=
                          auth_memcpy (passntlm2 c2)
                            (ntlm2_hash_password sx (cstr (cuser cf)) (cstr (cdomain cf)) (cstr (cpassword cf))) 16\<rparr>
                   else c2)
         in Inr (c3, memset0 (cpassword cf) (strlen (cpassword cf)))))"

text \<open>"If we're going to need a password, check we really have it" (lines 1692 to 1701).\<close>

definition password_missing :: "build \<Rightarrow> config \<Rightarrow> auth_s \<Rightarrow> bool" where
  "password_missing b cf creds =
     (ntlmbasic cf = 0 \<and> (ENABLE_KERBEROS b \<longrightarrow> haskrb creds = 0) \<and>
      ((hashnt creds \<noteq> 0 \<and> is_memory_all_zero (passnt creds))
       \<or> (hashlm creds \<noteq> 0 \<and> is_memory_all_zero (passlm creds))
       \<or> (hashntlm2 creds \<noteq> 0 \<and> is_memory_all_zero (passntlm2 creds))))"

text \<open>The change of the user identity (lines 1751 to 1783).\<close>

definition isdigit :: "char \<Rightarrow> bool" where
  "isdigit c = (c \<in> set ''0123456789'')"

definition change_uid :: "startup_extern \<Rightarrow> config \<Rightarrow> exit option" where
  "change_uid sx cf =
     (if strlen (cuid cf) \<noteq> 0 then
        if getuid sx \<noteq> 0 \<and> geteuid sx \<noteq> 0 then None
        else
          (case (if isdigit (cuid cf ! 0)
                 then (let nuid = atoi sx (cstr (cuid cf))
                       in if nuid \<le> 0 then Inl (myexit Uid_Invalid 1) else Inr (nuid, nuid))
                 else (case getpwnam sx (cstr (cuid cf)) of
                         None \<Rightarrow> Inl (myexit Uid_Invalid 1)
                       | Some (pw_uid, pw_gid) \<Rightarrow>
                           if pw_uid = 0 then Inl (myexit Uid_Invalid 1)
                           else Inr (int pw_uid, int pw_gid))) of
             Inl e \<Rightarrow> Some e
           | Inr (nuid, ngid) \<Rightarrow>
               if setgid sx ngid \<noteq> 0 then Some (myexit Setgid_Failed 1)
               else if setuid sx nuid \<noteq> 0 then Some (myexit Setuid_Failed 1)
               else None)
      else None)"

text \<open>The PID file (lines 1789 to 1808).\<close>

definition write_pidfile :: "startup_extern \<Rightarrow> config \<Rightarrow> exit option" where
  "write_pidfile sx cf =
     (if strlen (cpidfile cf) \<noteq> 0 then
        if pidfile_open sx < 0 then Some (myexit Pidfile_Error 1)
        else if \<not> pidfile_written sx then Some (myexit Pidfile_Error 1)
        else None
      else None)"

text \<open>
  What the startup leaves for the accept loop: the credential, whether the PAC evaluator
  runs, and the buffer \<open>cpassword\<close> as it is when it is freed (line 1652).
\<close>

record daemon =
  g_creds :: auth_s
  pac_initialized :: int
  cpassword_freed :: string

text \<open>
  The startup, from line 1474 to the accept loop. Logging, the default of the workstation
  name and the detaching from the terminal have no exit and are left out. \<open>Inl\<close>: the
  process has ended; the jumps to \<open>bailout\<close> end it with \<open>exit(0)\<close>.
\<close>

definition startup :: "build \<Rightarrow> startup_extern \<Rightarrow> config \<Rightarrow> auth_s \<Rightarrow> exit + daemon" where
  "startup b sx cf creds0 =
     (if ENABLE_PACPARSER b \<and> pac cf \<noteq> 0 \<and> \<not> pac_file_opens sx then Inl (myexit Pac_File_Missing 1)
      else if interactivehash cf = 0 \<and> parent_list cf = [] \<and> \<not> (ENABLE_PACPARSER b \<and> pac cf \<noteq> 0)
      then Inl (croak Parent_Missing)
      else if interactivehash cf = 0 \<and> magic_detect cf = None \<and> proxyd_list cf = []
      then Inl (croak No_Proxy_Port)
      else
        (case parse_auth b sx (cauth cf) creds0 of
           Inl e \<Rightarrow> Inl e
         | Inr c1 \<Rightarrow>
             (let c2 = (if cflags cf \<noteq> 0 then c1\<lparr>flags := cflags cf\<rparr> else c1)
              in case load_password sx cf c2 of
                   Inl e \<Rightarrow> Inl e
                 | Inr (c3, buf) \<Rightarrow>
                     (let c4 = (if ENABLE_KERBEROS b
                                then c3\<lparr>haskrb := or (haskrb c3) (check_credential sx)\<rparr> else c3);
                          c5 = c4\<lparr>user := cstr (cuser cf), domain := cstr (cdomain cf)\<rparr>
                      in if magic_detect cf \<noteq> None then Inl (Magic_Detect_Done, 0)
                         else if interactivehash cf \<noteq> 0 then Inl (Hashes_Printed, 0)
                         else if password_missing b cf c5 then Inl (myexit Password_Missing 1)
                         else if asdaemon cf \<noteq> 0 \<and> fork sx = - 1 then Inl (myexit Fork_Failed 1)
                         else if asdaemon cf \<noteq> 0 \<and> fork sx \<noteq> 0 then Inl (myexit Fork_Parent 0)
                         else
                           (case change_uid sx cf of
                              Some e \<Rightarrow> Inl e
                            | None \<Rightarrow>
                                (case write_pidfile sx cf of
                                   Some e \<Rightarrow> Inl e
                                 | None \<Rightarrow>
                                     Inr \<lparr>g_creds = c5,
                                          pac_initialized =
                                            (if ENABLE_PACPARSER b \<and> pac cf \<noteq> 0 then 1 else 0),
                                          cpassword_freed = buf\<rparr>))))))"

section \<open>The accept loop\<close>

text \<open>
  Modelled from the spec: \<open>plist_in\<close> and \<open>plist_get\<close> of utils.c are absent; the spec names
  the lists association lists: \<open>plist_in\<close> tells whether a key is in the list, \<open>plist_get\<close>
  returns what the list holds for the key (NULL when the key is not there).
\<close>

definition plist_in :: "(nat \<times> string option) list \<Rightarrow> nat \<Rightarrow> bool" where
  "plist_in list key = (key \<in> fst ` set list)"

definition plist_get :: "(nat \<times> string option) list \<Rightarrow> nat \<Rightarrow> string option" where
  "plist_get list key = (case map_of list key of None \<Rightarrow> None | Some aux \<Rightarrow> aux)"

text \<open>\<open>sighandler\<close>, as a function of the debug flag and \<open>quit\<close>: \<open>if (quit++ || debug) quit++\<close>.\<close>

definition sighandler :: "int \<Rightarrow> int \<Rightarrow> int" where
  "sighandler dbg q = (if q \<noteq> 0 \<or> dbg \<noteq> 0 then q + 1 + 1 else q + 1)"

text \<open>
  The state of the loop: \<open>quit\<close>, the numbers of created and of joined threads (both
  \<open>unsigned int\<close>), and the workers started so far: the function given to \<open>pthread_create\<close>
  (or called in place, in the serialize mode) with the value of \<open>tid\<close> after the call.
  \<open>Proxy_Worker cd\<close> is \<open>proxy_thread\<close>, \<open>Socks5_Worker cd\<close> is \<open>socks5_thread\<close> and
  \<open>Tunnel_Worker cd target\<close> is \<open>tunnel_thread\<close>, each for the accepted connection \<open>cd\<close>;
  \<open>target\<close> is the field \<open>target\<close> of the thread argument.
\<close>

datatype worker =
    Proxy_Worker int
  | Socks5_Worker int
  | Tunnel_Worker int "string option"

record acceptor =
  quit :: int
  tc :: "32 word"
  tj :: "32 word"
  started :: "(worker \<times> int) list"

text \<open>The condition of the loop (line 1839).\<close>

definition loop_cond :: "acceptor \<Rightarrow> bool" where
  "loop_cond s = (quit s = 0 \<or> (tc s \<noteq> tj s \<and> quit s < 2))"

text \<open>
  One round of the loop meets: what \<open>select\<close> returns for the descriptors and the timeout
  it is given (its return value and, in increasing order, the listeners that are ready, each
  with what \<open>accept\<close> and \<open>pthread_create\<close> return for it); the finished threads found in
  \<open>threads_list\<close>, each with what \<open>pthread_join\<close> returns; and the signals delivered meanwhile.
\<close>

record conn =
  listener :: nat
  accepted :: int
  created :: int

record round =
  select :: "nat list \<Rightarrow> int \<times> int \<Rightarrow> int \<times> conn list"
  finished :: "(nat \<times> int) list"
  signals :: nat

text \<open>The descriptors put into the set, and the timeout \<open>tv\<close> (seconds, microseconds).\<close>

definition watched :: "config \<Rightarrow> nat list" where
  "watched cf = map fst (proxyd_list cf) @ map fst (socksd_list cf) @ map fst (tunneld_list cf)"

definition tv :: "int \<times> int" where
  "tv = (1, 0)"

text \<open>The worker for an accepted connection \<open>cd\<close> on the listener \<open>i\<close> (lines 1911 to 1930).\<close>

definition dispatch :: "config \<Rightarrow> nat \<Rightarrow> int \<Rightarrow> worker" where
  "dispatch cf i cd =
     (if plist_in (proxyd_list cf) i then Proxy_Worker cd
      else if plist_in (socksd_list cf) i then Socks5_Worker cd
      else Tunnel_Worker cd (plist_get (tunneld_list cf) i))"

text \<open>
  The loop over the ready descriptors (lines 1893 to 1938). \<open>tid\<close> is set by
  \<open>pthread_create\<close>; a proxy worker of the serialize mode is called in place and leaves \<open>tid\<close>
  as it is. The thread count grows when \<open>tid\<close> is 0.
\<close>

fun accept_all ::
  "int \<Rightarrow> config \<Rightarrow> conn list \<Rightarrow> int \<Rightarrow> 32 word \<Rightarrow> (worker \<times> int) list \<Rightarrow>
   32 word \<times> (worker \<times> int) list" where
  "accept_all ser cf [] tid n log = (n, log)"
| "accept_all ser cf (c # cs) tid n log =
     (if accepted c < 0 then accept_all ser cf cs tid n log
      else
        (let w = dispatch cf (listener c) (accepted c);
             tid' = (if plist_in (proxyd_list cf) (listener c) \<and> ser \<noteq> 0 then tid else created c)
         in accept_all ser cf cs tid' (if tid' \<noteq> 0 then n else n + 1) (log @ [(w, tid')])))"

text \<open>The joins (lines 1942 to 1961): \<open>tj\<close> counts the threads \<open>pthread_join\<close> returns 0 for.\<close>

fun join_all :: "(nat \<times> int) list \<Rightarrow> 32 word \<Rightarrow> 32 word" where
  "join_all [] n = n"
| "join_all ((key, rc) # ts) n = join_all ts (if rc = 0 then n + 1 else n)"

text \<open>
  The body of the loop (lines 1848 to 1961), then the signals of the round: the handler
  runs once for each. The body does not read \<open>quit\<close> but to log a failed \<open>select\<close>, so a
  signal changes nothing in a round whenever it arrives in it.
\<close>

definition loop_body :: "int \<Rightarrow> int \<Rightarrow> config \<Rightarrow> acceptor \<Rightarrow> round \<Rightarrow> acceptor" where
  "loop_body dbg ser cf s r =
     (case select r (watched cf) tv of
        (cd, ready) \<Rightarrow>
          (case (if cd > 0 then accept_all ser cf ready 0 (tc s) (started s) else (tc s, started s)) of
             (tc', log) \<Rightarrow>
               \<lparr>quit = (sighandler dbg ^^ signals r) (quit s),
                tc = tc', tj = join_all (finished r) (tj s), started = log\<rparr>))"

text \<open>
  The loop (line 1839) over the rounds it meets: \<open>Some\<close> with the state in which the
  condition fails, \<open>None\<close> when the loop is still running after the last of them.
\<close>

fun accept_loop :: "int \<Rightarrow> int \<Rightarrow> config \<Rightarrow> acceptor \<Rightarrow> round list \<Rightarrow> acceptor option" where
  "accept_loop dbg ser cf s [] = (if loop_cond s then None else Some s)"
| "accept_loop dbg ser cf s (r # rs) =
     (if loop_cond s then accept_loop dbg ser cf (loop_body dbg ser cf s r) rs else Some s)"

text \<open>
  \<open>main\<close> from line 1474 on: the startup, the accept loop, and \<open>exit(0)\<close> at \<open>bailout\<close>.
  \<open>None\<close>: the process is still running.
\<close>

definition main ::
  "build \<Rightarrow> startup_extern \<Rightarrow> config \<Rightarrow> auth_s \<Rightarrow> int \<Rightarrow> int \<Rightarrow> round list \<Rightarrow> exit option" where
  "main b sx cf creds0 dbg ser rounds =
     (case startup b sx cf creds0 of
        Inl e \<Rightarrow> Some e
      | Inr d \<Rightarrow>
          (case accept_loop dbg ser cf \<lparr>quit = 0, tc = 0, tj = 0, started = []\<rparr> rounds of
             None \<Rightarrow> None
           | Some s \<Rightarrow> Some (Loop_Left, 0)))"

section \<open>A concrete environment for the examples\<close>

text \<open>
  For the parameters: a matcher that accepts a string only for the pattern equal to it, a
  user table looked up by key, connectors that succeed, buffers of fifty bytes, a signed
  \<open>char\<close>, and a \<open>read\<close> that fails (it returns -1 and reads nothing) for a negative count.
  Then a no-proxy option and a user, and the same without users.
\<close>

definition ex0 :: extern where
  "ex0 = \<lparr>fnmatch = (\<lambda>p s. if p = s then 0 else 1), hlist_get = map_of,
     host_connect = (\<lambda>h p. 3), proxy_connect = 4, prepare_http_connect = (\<lambda>sd h. 1),
     MINIBUF_SIZE = 50, plain_char_signed = True,
     read_negative = (\<lambda>c inp. (- 1, inp)), upass_unread = []\<rparr>"

definition g_users :: globals where
  "g_users = \<lparr>debug = 0, serialize = 0, pacparser_initialized = 1,
     noproxy_list = noproxy_add [] ''intra.local, 10.0.0.1'',
     users_list = [(''alice'', ''s3cret'')]\<rparr>"

definition g_open :: globals where
  "g_open = g_users\<lparr>users_list := []\<rparr>"

definition b_pac :: build where
  "b_pac = \<lparr>ENABLE_PACPARSER = True, ENABLE_KERBEROS = False\<rparr>"

text \<open>A build with Kerberos, a credential as \<open>new_auth\<close> may leave it, and a configuration.\<close>

definition b_krb :: build where
  "b_krb = \<lparr>ENABLE_PACPARSER = False, ENABLE_KERBEROS = True\<rparr>"

definition sx0 :: startup_extern where
  "sx0 = \<lparr>ntlm_hash_nt_password = (\<lambda>p. replicate 21 (CHR ''N'')),
     ntlm_hash_lm_password = (\<lambda>p. replicate 21 (CHR ''L'')),
     ntlm2_hash_password = (\<lambda>u d p. replicate 16 (CHR ''V'')),
     scanmem = (\<lambda>s n. None), KRB_FORCE_USE_KRB = 1, check_credential = 0,
     atoi = (\<lambda>s. 0), pac_file_opens = True, fork = 0, getuid = 1000, geteuid = 1000,
     getpwnam = (\<lambda>s. None), setgid = (\<lambda>g. 0), setuid = (\<lambda>u. 0),
     pidfile_open = 3, pidfile_written = True\<rparr>"

definition auth0 :: auth_s where
  "auth0 = \<lparr>hashntlm2 = 1, hashnt = 0, hashlm = 0, haskrb = 0, flags = 0,
     passntlm2 = replicate 50 (CHR 0x00), passnt = replicate 50 (CHR 0x00),
     passlm = replicate 50 (CHR 0x00), user = [], domain = []\<rparr>"

definition cf0 :: config where
  "cf0 = \<lparr>interactivehash = 0, interactivepwd = 0, magic_detect = None, pac = 0,
     parent_list = [''proxy.corp:8080''],
     proxyd_list = [(3, None)], socksd_list = [(4, None)],
     tunneld_list = [(5, Some ''intra.local:22'')],
     cauth = ''NTLMv2'', cflags = 0, cpassword = fst (option_p ex0 ''s3cret''),
     cpassntlm2 = [], cpassnt = [], cpasslm = [], cuser = ''alice'', cdomain = ''corp'',
     ntlmbasic = 0, asdaemon = 0, cuid = [], cpidfile = []\<rparr>"

definition d0 :: daemon where
  "d0 = \<lparr>g_creds = auth0\<lparr>hashnt := 0, hashlm := 0, hashntlm2 := 1,
            passntlm2 := replicate 16 (CHR ''V'') @ replicate 34 (CHR 0x00),
            user := ''alice'', domain := ''corp''\<rparr>,
          pac_initialized = 0, cpassword_freed = replicate 50 (CHR 0x00)\<rparr>"

text \<open>
  Rounds of the accept loop: one in which each of the three listeners has a connection, and
  one in which nothing is ready and signals arrive.
\<close>

definition r_ready :: round where
  "r_ready = \<lparr>select = (\<lambda>fds t. if fds = [3, 4, 5] \<and> t = (1, 0)
                  then (3, [\<lparr>listener = 3, accepted = 10, created = 0\<rparr>,
                            \<lparr>listener = 4, accepted = 11, created = 0\<rparr>,
                            \<lparr>listener = 5, accepted = 12, created = 0\<rparr>])
                  else (0, [])),
     finished = [], signals = 0\<rparr>"

definition r_signals :: "nat \<Rightarrow> round" where
  "r_signals k = \<lparr>select = (\<lambda>fds t. (0, [])), finished = [], signals = k\<rparr>"

definition s_draining :: acceptor where
  "s_draining = \<lparr>quit = 1, tc = 1, tj = 0, started = []\<rparr>"

text \<open>The configuration without any password.\<close>

definition cf_nopass :: config where
  "cf_nopass = cf0\<lparr>cpassword := replicate 50 (CHR 0x00)\<rparr>"

text \<open>
  A matcher that also accepts every string ending in \<open>.local\<close> for the pattern \<open>*.local\<close>,
  that pattern as the no-proxy option of a daemon without users, and a host name of 57
  bytes.
\<close>

definition ex_glob :: extern where
  "ex_glob = ex0\<lparr>fnmatch :=
     (\<lambda>p s. if p = s \<or> (p = ''*.local'' \<and> drop (length s - 6) s = ''.local'') then 0 else 1)\<rparr>"

definition g_local :: globals where
  "g_local = g_open\<lparr>noproxy_list := noproxy_add [] ''*.local''\<rparr>"

definition long_name :: string where
  "long_name = ''build-cache-07.engineering.eu-central.corp-intranet.local''"

text \<open>
  The option \<open>-p longpassword\<close> together with the option \<open>-I\<close>, the configuration once
  \<open>ab\<close> is typed at the prompt, and the daemon it starts.
\<close>

definition cf_typed :: config where
  "cf_typed = cf0\<lparr>interactivepwd := 1, cpassword := fst (option_p ex0 ''longpassword'')\<rparr>"

definition cf_prompted :: config where
  "cf_prompted = cf_typed\<lparr>cpassword :=
     ''ab'' @ [CHR 0x00, CHR 0x00] @ ''password'' @ replicate 38 (CHR 0x00)\<rparr>"

definition d_prompted :: daemon where
  "d_prompted = d0\<lparr>cpassword_freed :=
     replicate 4 (CHR 0x00) @ ''password'' @ replicate 38 (CHR 0x00)\<rparr>"

section \<open>Properties of the no-proxy list\<close>

lemma strtok_all_nonempty: "[] \<notin> set (strtok_all cur s)"
  by (induction s arbitrary: cur) auto

section \<open>The SOCKS5 negotiation\<close>

lemma read_n_append: "length xs = n \<Longrightarrow> read_n n (xs @ rest) = Some (xs, rest)"
  by (simp add: read_n_def)

lemma scan_auths_found: "0 \<le> found \<Longrightarrow> scan_auths m auths found = found"
  by (cases auths) auto

lemma of_char_int_bounds: "0 \<le> (of_char c :: int) \<and> (of_char c :: int) < 256"
proof -
  have "(of_char c :: int) = int (of_char c)" by (simp add: of_nat_of_char)
  moreover have "(of_char c :: nat) < 256" by simp
  ultimately show ?thesis by simp
qed

lemma scan_auths_search:
  "found < 0 \<Longrightarrow> scan_auths m auths found = (if m \<in> set auths then of_char m else found)"
  by (induction auths) (auto simp: scan_auths_found of_char_int_bounds)

lemma select_method_open:
  "hlist_count (users_list g) = 0 \<Longrightarrow>
   select_method g auths = (if CHR 0x00 \<in> set auths then 0 else if CHR 0x02 \<in> set auths then 2 else - 1)"
  by (simp add: select_method_def scan_auths_search)

lemma select_method_users:
  "hlist_count (users_list g) \<noteq> 0 \<Longrightarrow>
   select_method g auths = (if CHR 0x02 \<in> set auths then 2 else - 1)"
  by (simp add: select_method_def scan_auths_search)

lemma char_of_2: "char_of (2::int) = CHR 0x02" by (simp add: char_of_def)
lemma char_of_0: "char_of (0::int) = CHR 0x00" by (simp add: char_of_def)

lemma socks5_thread_greeting:
  assumes "of_char n = length auths"
  shows "socks5_thread ex g (CHR 0x05 # n # auths @ rest) =
     (if select_method g auths < 0 then Closed (bailout [CHR 0x05, CHR 0xFF])
      else if select_method g auths \<noteq> 0
      then (case plain_auth ex g [CHR 0x05, char_of (select_method g auths)] rest of
              Inl e \<Rightarrow> e
            | Inr (w, inp3) \<Rightarrow> Closed (socks5_request ex g w inp3))
      else Closed (socks5_request ex g [CHR 0x05, char_of (select_method g auths)] rest))"
  using assms by (simp add: socks5_thread_def read_n_def Let_def)

lemma char_to_int_nonneg: "0 \<le> char_to_int ex c \<Longrightarrow> nat (char_to_int ex c) = of_char c"
  using of_char_int_bounds [of c] by (auto simp: char_to_int_def nat_eq_iff of_nat_of_char split: if_splits)

lemma plain_auth_complete:
  assumes "of_char ul = length uname" "of_char pl = length upass" "0 \<le> char_to_int ex pl"
  shows "plain_auth ex g w (v # ul # uname @ pl # upass @ rest) =
     (if check_credentials ex g uname upass then Inr (w @ [CHR 0x01, CHR 0x00], rest)
      else Inl (Closed (bailout (w @ [CHR 0x01, CHR 0xFF]))))"
proof -
  have r1: "read_n 2 (v # ul # uname @ pl # upass @ rest) = Some ([v, ul], uname @ pl # upass @ rest)"
    by (simp add: read_n_def)
  have r2: "read_n (Suc (length uname)) (uname @ pl # upass @ rest) = Some (uname @ [pl], upass @ rest)"
    using read_n_append [of "uname @ [pl]" "Suc (length uname)" "upass @ rest"] by simp
  have r3: "read_n (length upass) (upass @ rest) = Some (upass, rest)"
    by (simp add: read_n_append)
  show ?thesis
    using assms by (simp add: plain_auth_def r1 r2 r3 Let_def char_to_int_nonneg)
qed

text \<open>
  A password length byte that is negative as a plain \<open>char\<close>: the reply depends on what
  \<open>read\<close> returns for that count, and no byte of the password is compared.
\<close>

lemma plain_auth_negative:
  assumes "of_char ul = length uname" "char_to_int ex pl < 0"
    and "read_negative ex (char_to_int ex pl) rest = (r, rest')"
  shows "plain_auth ex g w (v # ul # uname @ pl # rest) =
     (if r \<noteq> char_to_int ex pl then Inl (Closed (bailout w))
      else if check_credentials ex g uname (upass_unread ex) then Inr (w @ [CHR 0x01, CHR 0x00], rest')
      else Inl (Closed (bailout (w @ [CHR 0x01, CHR 0xFF]))))"
proof -
  have r1: "read_n 2 (v # ul # uname @ pl # rest) = Some ([v, ul], uname @ pl # rest)"
    by (simp add: read_n_def)
  have r2: "read_n (Suc (length uname)) (uname @ pl # rest) = Some (uname @ [pl], rest)"
    using read_n_append [of "uname @ [pl]" "Suc (length uname)" rest] by simp
  show ?thesis
    using assms by (simp add: plain_auth_def r1 r2 Let_def)
qed

lemma char_to_int_0x80: "char_to_int ex0 (CHR 0x80) = - 128"
  by (simp add: char_to_int_def ex0_def)

lemma socks5_request_refused:
  assumes "cmd \<noteq> CHR 0x01 \<or> (atyp \<noteq> CHR 0x01 \<and> atyp \<noteq> CHR 0x03)"
  shows "socks5_request ex g w (v # cmd # rsv # atyp # rest) = bailout (w @ reply (CHR 0x02))"
  using assms by (auto simp add: socks5_request_def read_n_def)

lemma sent_socks5_connect: "take (length w) (sent (socks5_connect ex g w thost port)) = w"
  by (simp add: socks5_connect_def Let_def)

lemma sent_socks5_request: "take (length w) (sent (socks5_request ex g w inp)) = w"
  by (auto simp add: socks5_request_def bailout_def sent_socks5_connect split: option.splits)


lemma noproxy_list_g_users: "noproxy_list g_users = [''intra.local'', ''10.0.0.1'']"
  by (simp add: g_users_def noproxy_add_def cstr_def)

text \<open>
  The method selection, and the sub-negotiation for a password length byte that is not
  negative as a plain \<open>char\<close> (every length where \<open>char\<close> is unsigned, the lengths below 128
  where it is signed). The client offers the methods \<open>auths\<close> (their number in the byte
  \<open>n\<close>). With an empty user table and method 0x00 offered the worker selects no-auth (it
  answers 05 00 and goes on to the request). With a user table that is not empty, it answers
  05 FF and closes when 0x02 is not offered, and selects 0x02 when it is (also when 0x00 is
  offered too); the pair \<open>uname\<close>, \<open>upass\<close> of the sub-negotiation is then looked up with
  \<open>hlist_get\<close>, and an unknown user or a password other than the stored one (as C strings) is
  answered with 01 FF and the connection is closed with no request read; the stored password
  is answered with 01 00.
\<close>

lemma socks5_negotiation:
  assumes "of_char n = length auths"
  shows "(hlist_count (users_list g) = 0 \<and> CHR 0x00 \<in> set auths \<longrightarrow>
            select_method g auths = 0 \<and>
            socks5_thread ex g (CHR 0x05 # n # auths @ rest) =
              Closed (socks5_request ex g [CHR 0x05, CHR 0x00] rest))
       \<and> (hlist_count (users_list g) \<noteq> 0 \<and> CHR 0x02 \<notin> set auths \<longrightarrow>
            socks5_thread ex g (CHR 0x05 # n # auths @ rest) =
              Closed \<lparr>sent = [CHR 0x05, CHR 0xFF], route = None, tunnel = False\<rparr>)
       \<and> (hlist_count (users_list g) \<noteq> 0 \<and> CHR 0x02 \<in> set auths \<and>
          of_char ul = length uname \<and> of_char pl = length upass \<and> 0 \<le> char_to_int ex pl \<longrightarrow>
            select_method g auths = 2 \<and>
            socks5_thread ex g (CHR 0x05 # n # auths @ v # ul # uname @ pl # upass @ rest) =
              (case hlist_get ex (users_list g) (cstr uname) of
                 None \<Rightarrow>
                   Closed \<lparr>sent = [CHR 0x05, CHR 0x02, CHR 0x01, CHR 0xFF], route = None, tunnel = False\<rparr>
               | Some tmp \<Rightarrow>
                   if cstr tmp = cstr upass
                   then Closed (socks5_request ex g [CHR 0x05, CHR 0x02, CHR 0x01, CHR 0x00] rest)
                   else Closed \<lparr>sent = [CHR 0x05, CHR 0x02, CHR 0x01, CHR 0xFF], route = None, tunnel = False\<rparr>))"
proof (intro conjI impI)
  assume a: "hlist_count (users_list g) = 0 \<and> CHR 0x00 \<in> set auths"
  then show "select_method g auths = 0" by (simp add: select_method_open)
  with assms show "socks5_thread ex g (CHR 0x05 # n # auths @ rest) =
      Closed (socks5_request ex g [CHR 0x05, CHR 0x00] rest)"
    by (simp add: socks5_thread_greeting char_of_0)
next
  assume a: "hlist_count (users_list g) \<noteq> 0 \<and> CHR 0x02 \<notin> set auths"
  then have "select_method g auths = - 1" by (simp add: select_method_users)
  with assms show "socks5_thread ex g (CHR 0x05 # n # auths @ rest) =
      Closed \<lparr>sent = [CHR 0x05, CHR 0xFF], route = None, tunnel = False\<rparr>"
    by (simp add: socks5_thread_greeting bailout_def)
next
  assume a: "hlist_count (users_list g) \<noteq> 0 \<and> CHR 0x02 \<in> set auths \<and>
          of_char ul = length uname \<and> of_char pl = length upass \<and> 0 \<le> char_to_int ex pl"
  then show m: "select_method g auths = 2" by (simp add: select_method_users)
  have pa: "plain_auth ex g [CHR 0x05, CHR 0x02] (v # ul # uname @ pl # upass @ rest) =
     (if check_credentials ex g uname upass then Inr ([CHR 0x05, CHR 0x02] @ [CHR 0x01, CHR 0x00], rest)
      else Inl (Closed (bailout ([CHR 0x05, CHR 0x02] @ [CHR 0x01, CHR 0xFF]))))"
    using a by (intro plain_auth_complete) simp_all
  have "socks5_thread ex g (CHR 0x05 # n # auths @ (v # ul # uname @ pl # upass @ rest)) =
     (if check_credentials ex g uname upass
      then Closed (socks5_request ex g [CHR 0x05, CHR 0x02, CHR 0x01, CHR 0x00] rest)
      else Closed (bailout [CHR 0x05, CHR 0x02, CHR 0x01, CHR 0xFF]))"
    using assms m by (simp add: socks5_thread_greeting char_of_2 pa)
  then show "socks5_thread ex g (CHR 0x05 # n # auths @ v # ul # uname @ pl # upass @ rest) =
              (case hlist_get ex (users_list g) (cstr uname) of
                 None \<Rightarrow>
                   Closed \<lparr>sent = [CHR 0x05, CHR 0x02, CHR 0x01, CHR 0xFF], route = None, tunnel = False\<rparr>
               | Some tmp \<Rightarrow>
                   if cstr tmp = cstr upass
                   then Closed (socks5_request ex g [CHR 0x05, CHR 0x02, CHR 0x01, CHR 0x00] rest)
                   else Closed \<lparr>sent = [CHR 0x05, CHR 0x02, CHR 0x01, CHR 0xFF], route = None, tunnel = False\<rparr>)"
    using a by (simp add: check_credentials_def bailout_def split: option.splits)
qed

lemma socks5_negotiation_examples:
  "socks5_thread ex0 g_users
     ([CHR 0x05, CHR 0x02, CHR 0x00, CHR 0x02] @ [CHR 0x01, CHR 0x05] @ ''alice'' @ [CHR 0x05] @ ''wrong'')
     = Closed \<lparr>sent = [CHR 0x05, CHR 0x02, CHR 0x01, CHR 0xFF], route = None, tunnel = False\<rparr>
   \<and> socks5_thread ex0 g_users [CHR 0x05, CHR 0x01, CHR 0x00]
     = Closed \<lparr>sent = [CHR 0x05, CHR 0xFF], route = None, tunnel = False\<rparr>
   \<and> socks5_thread ex0 g_open [CHR 0x05, CHR 0x02, CHR 0x00, CHR 0x02]
     = Closed (socks5_request ex0 g_open [CHR 0x05, CHR 0x00] [])"
  using socks5_negotiation [of "CHR 0x02" "[CHR 0x00, CHR 0x02]" g_users ex0 "[]" "CHR 0x05" "''alice''"
      "CHR 0x05" "''wrong''" "CHR 0x01"]
    socks5_negotiation [of "CHR 0x01" "[CHR 0x00]" g_users ex0 "[]"]
    socks5_negotiation [of "CHR 0x02" "[CHR 0x00, CHR 0x02]" g_open ex0 "[]"]
  by (simp add: g_users_def g_open_def ex0_def hlist_count_def char_to_int_def cstr_def)

text \<open>
  Claim C2. The user table is \<open>alice\<close> with the password \<open>s3cret\<close>, a plain \<open>char\<close> is signed
  and \<open>read\<close> fails for a negative count. The client offers method 0x02 and submits \<open>alice\<close>
  with a wrong password of 128 bytes (length byte 0x80). The worker takes the length for
  -128, \<open>read\<close> does not return -128, and the connection is closed after the two bytes
  05 02 of the method selection: the failure reply 01 FF is never written.
\<close>

theorem socks5_long_password:
  "socks5_thread ex0 g_users
     ([CHR 0x05, CHR 0x01, CHR 0x02] @ [CHR 0x01, CHR 0x05] @ ''alice'' @ [CHR 0x80] @ replicate 128 (CHR ''x''))
     = Closed \<lparr>sent = [CHR 0x05, CHR 0x02], route = None, tunnel = False\<rparr>"
proof -
  have m: "select_method g_users [CHR 0x02] = 2"
    by (simp add: select_method_users g_users_def hlist_count_def)
  have r: "read_negative ex0 (char_to_int ex0 (CHR 0x80)) (replicate 128 (CHR ''x'')) = (- 1, replicate 128 (CHR ''x''))"
    by (simp add: ex0_def)
  have p: "plain_auth ex0 g_users [CHR 0x05, CHR 0x02]
      (CHR 0x01 # CHR 0x05 # ''alice'' @ CHR 0x80 # replicate 128 (CHR ''x'')) =
      Inl (Closed (bailout [CHR 0x05, CHR 0x02]))"
    using plain_auth_negative [of "CHR 0x05" "''alice''" ex0 "CHR 0x80", OF _ _ r]
    by (simp add: char_to_int_0x80)
  have "socks5_thread ex0 g_users (CHR 0x05 # CHR 0x01 # [CHR 0x02] @
      (CHR 0x01 # CHR 0x05 # ''alice'' @ CHR 0x80 # replicate 128 (CHR ''x''))) =
      Closed (bailout [CHR 0x05, CHR 0x02])"
  proof -
    have g: "of_char (CHR 0x01) = length [CHR 0x02]" by simp
    show ?thesis
      unfolding socks5_thread_greeting [OF g] m using p by (simp add: char_of_2)
  qed
  then show ?thesis by (simp add: bailout_def)
qed

text \<open>
  The passwords are compared as C strings: \<open>s3cret\<close>, a NUL byte and \<open>xyz\<close> is accepted
  for \<open>s3cret\<close>.
\<close>

lemma socks5_password_behind_NUL:
  "socks5_thread ex0 g_users
     ([CHR 0x05, CHR 0x01, CHR 0x02] @ [CHR 0x01, CHR 0x05] @ ''alice'' @ [CHR 0x0A] @ ''s3cret'' @ [CHR 0x00] @ ''xyz'')
     = Closed (socks5_request ex0 g_users [CHR 0x05, CHR 0x02, CHR 0x01, CHR 0x00] [])"
proof -
  have m: "select_method g_users [CHR 0x02] = 2"
    by (simp add: select_method_users g_users_def hlist_count_def)
  have g: "of_char (CHR 0x01) = length [CHR 0x02]" by simp
  have c: "0 \<le> char_to_int ex0 (CHR 0x0A)"
    by (simp add: char_to_int_def)
  have p: "plain_auth ex0 g_users [CHR 0x05, CHR 0x02]
      (CHR 0x01 # CHR 0x05 # ''alice'' @ CHR 0x0A # (''s3cret'' @ [CHR 0x00] @ ''xyz'') @ []) =
      Inr ([CHR 0x05, CHR 0x02] @ [CHR 0x01, CHR 0x00], [])"
    using plain_auth_complete [of "CHR 0x05" "''alice''" "CHR 0x0A" "''s3cret'' @ [CHR 0x00] @ ''xyz''" ex0
        g_users "[CHR 0x05, CHR 0x02]" "CHR 0x01" "[]", OF _ _ c]
    by (simp add: check_credentials_def g_users_def hlist_count_def ex0_def cstr_def)
  have "socks5_thread ex0 g_users (CHR 0x05 # CHR 0x01 # [CHR 0x02] @
      (CHR 0x01 # CHR 0x05 # ''alice'' @ CHR 0x0A # (''s3cret'' @ [CHR 0x00] @ ''xyz'') @ [])) =
      Closed (socks5_request ex0 g_users [CHR 0x05, CHR 0x02, CHR 0x01, CHR 0x00] [])"
    unfolding socks5_thread_greeting [OF g] m using p by (simp add: char_of_2)
  then show ?thesis by simp
qed

section \<open>SOCKS5 requests that are refused\<close>

text \<open>
  Claim C3 says that a request with address type IPv6 is refused with reply code 0x08 and a
  command other than CONNECT with 0x07. The worker answers both with reply code 0x02: here
  an open proxy, a CONNECT to an IPv6 address, then a BIND to an IPv4 address.
\<close>

theorem socks5_refusal_counterexample:
  "socks5_thread ex0 g_open
     ([CHR 0x05, CHR 0x01, CHR 0x00] @ [CHR 0x05, CHR 0x01, CHR 0x00, CHR 0x04] @
      replicate 16 (CHR 0x00) @ [CHR 0x00, CHR 0x50])
     = Closed \<lparr>sent = [CHR 0x05, CHR 0x00] @ reply (CHR 0x02), route = None, tunnel = False\<rparr>
   \<and> reply (CHR 0x02) \<noteq> reply (CHR 0x08)
   \<and> socks5_thread ex0 g_open
     ([CHR 0x05, CHR 0x01, CHR 0x00] @ [CHR 0x05, CHR 0x02, CHR 0x00, CHR 0x01] @
      [CHR 0x01, CHR 0x02, CHR 0x03, CHR 0x04] @ [CHR 0x00, CHR 0x50])
     = Closed \<lparr>sent = [CHR 0x05, CHR 0x00] @ reply (CHR 0x02), route = None, tunnel = False\<rparr>
   \<and> reply (CHR 0x02) \<noteq> reply (CHR 0x07)"
  by (simp add: socks5_thread_def read_n_def select_method_def g_open_def g_users_def
      hlist_count_def char_of_0 socks5_request_def bailout_def reply_def)

text \<open>
  Claim C3, amended. A request whose command is not CONNECT (0x01), or whose address type is
  IPv6 (0x04) or any other than IPv4 (0x01) and domain name (0x03), is refused with the ten
  bytes 05 02 00 01 00 00 00 00 00 00 (reply code 0x02, "not allowed", in both cases), and the
  connection is closed: no address is read, no connection is made, there is no tunnel.
\<close>

theorem socks5_refusal:
  assumes "cmd \<noteq> CHR 0x01 \<or> atyp = CHR 0x04 \<or> (atyp \<noteq> CHR 0x01 \<and> atyp \<noteq> CHR 0x03)"
  shows "socks5_request ex g w (v # cmd # rsv # atyp # rest) =
           \<lparr>sent = w @ [CHR 0x05, CHR 0x02, CHR 0x00, CHR 0x01,
                         CHR 0x00, CHR 0x00, CHR 0x00, CHR 0x00, CHR 0x00, CHR 0x00],
            route = None, tunnel = False\<rparr>
       \<and> (hlist_count (users_list g) = 0 \<longrightarrow>
            socks5_thread ex g ([CHR 0x05, CHR 0x01, CHR 0x00] @ v # cmd # rsv # atyp # rest) =
              Closed \<lparr>sent = [CHR 0x05, CHR 0x00, CHR 0x05, CHR 0x02, CHR 0x00, CHR 0x01,
                         CHR 0x00, CHR 0x00, CHR 0x00, CHR 0x00, CHR 0x00, CHR 0x00],
                      route = None, tunnel = False\<rparr>)"
proof -
  have c: "cmd \<noteq> CHR 0x01 \<or> (atyp \<noteq> CHR 0x01 \<and> atyp \<noteq> CHR 0x03)"
    using assms by auto
  have r: "socks5_request ex g w' (v # cmd # rsv # atyp # rest) = bailout (w' @ reply (CHR 0x02))" for w'
    using c by (rule socks5_request_refused)
  have t: "socks5_thread ex g (CHR 0x05 # CHR 0x01 # [CHR 0x00] @ v # cmd # rsv # atyp # rest) =
        Closed (socks5_request ex g [CHR 0x05, CHR 0x00] (v # cmd # rsv # atyp # rest))"
    if "hlist_count (users_list g) = 0"
    using that by (subst socks5_thread_greeting) (simp_all add: select_method_open char_of_0)
  show ?thesis
    using t by (simp add: r bailout_def reply_def numeral_eq_Suc)
qed

theorem socks5_refusal_witness:
  "socks5_request ex0 g_users [] ([CHR 0x05, CHR 0x03, CHR 0x00, CHR 0x04] @ replicate 16 (CHR 0x00)) =
     \<lparr>sent = [CHR 0x05, CHR 0x02, CHR 0x00, CHR 0x01,
               CHR 0x00, CHR 0x00, CHR 0x00, CHR 0x00, CHR 0x00, CHR 0x00],
      route = None, tunnel = False\<rparr>
   \<and> socks5_thread ex0 g_open ([CHR 0x05, CHR 0x01, CHR 0x00] @ [CHR 0x05, CHR 0x01, CHR 0x00, CHR 0x04]) =
     Closed \<lparr>sent = [CHR 0x05, CHR 0x00, CHR 0x05, CHR 0x02, CHR 0x00, CHR 0x01,
                      CHR 0x00, CHR 0x00, CHR 0x00, CHR 0x00, CHR 0x00, CHR 0x00],
             route = None, tunnel = False\<rparr>"
  using socks5_refusal [of "CHR 0x03" "CHR 0x04" ex0 g_users "[]" "CHR 0x05" "CHR 0x00" "replicate 16 (CHR 0x00)"]
    socks5_refusal [of "CHR 0x01" "CHR 0x04" ex0 g_open "[]" "CHR 0x05" "CHR 0x00" "[]"]
  by (simp add: g_open_def g_users_def hlist_count_def)

section \<open>An open SOCKS5 proxy and the username/password method\<close>

text \<open>
  The user table is empty, the client offers method 0x02 and not 0x00, and the password
  length byte is not negative as a plain \<open>char\<close>. The worker selects 0x02 (it answers 05 02),
  reads the sub-negotiation and answers 01 00 whatever the user name and the password are,
  and goes on to the request.
\<close>

lemma socks5_open_plain_auth:
  assumes "hlist_count (users_list g) = 0" "CHR 0x00 \<notin> set auths" "CHR 0x02 \<in> set auths"
    and "of_char n = length auths" "of_char ul = length uname" "of_char pl = length upass"
    and "0 \<le> char_to_int ex pl"
  shows "select_method g auths = 2
       \<and> socks5_thread ex g (CHR 0x05 # n # auths @ v # ul # uname @ pl # upass @ rest) =
           Closed (socks5_request ex g [CHR 0x05, CHR 0x02, CHR 0x01, CHR 0x00] rest)
       \<and> take 4 (sent (socks5_request ex g [CHR 0x05, CHR 0x02, CHR 0x01, CHR 0x00] rest)) =
           [CHR 0x05, CHR 0x02, CHR 0x01, CHR 0x00]"
proof -
  have m: "select_method g auths = 2"
    using assms by (simp add: select_method_open)
  have pa: "plain_auth ex g [CHR 0x05, CHR 0x02] (v # ul # uname @ pl # upass @ rest) =
      Inr ([CHR 0x05, CHR 0x02] @ [CHR 0x01, CHR 0x00], rest)"
    using assms by (simp add: plain_auth_complete check_credentials_def)
  have "socks5_thread ex g (CHR 0x05 # n # auths @ (v # ul # uname @ pl # upass @ rest)) =
      Closed (socks5_request ex g [CHR 0x05, CHR 0x02, CHR 0x01, CHR 0x00] rest)"
    using assms(4) m by (simp add: socks5_thread_greeting char_of_2 pa)
  moreover have "take 4 (sent (socks5_request ex g [CHR 0x05, CHR 0x02, CHR 0x01, CHR 0x00] rest)) =
           [CHR 0x05, CHR 0x02, CHR 0x01, CHR 0x00]"
    using sent_socks5_request [of "[CHR 0x05, CHR 0x02, CHR 0x01, CHR 0x00]" ex g rest]
    by (simp add: eval_nat_numeral)
  ultimately show ?thesis using m by simp
qed

lemma socks5_open_plain_auth_example:
  "socks5_thread ex0 g_open
     ([CHR 0x05, CHR 0x01, CHR 0x02] @ [CHR 0x01, CHR 0x03] @ ''bob'' @ [CHR 0x03] @ ''any'') =
     Closed \<lparr>sent = [CHR 0x05, CHR 0x02, CHR 0x01, CHR 0x00], route = None, tunnel = False\<rparr>"
  using socks5_open_plain_auth [of g_open "[CHR 0x02]" "CHR 0x01" "CHR 0x03" "''bob''" "CHR 0x03" "''any''"
     ex0 "CHR 0x01" "[]"]
  by (simp add: g_open_def g_users_def hlist_count_def char_to_int_def ex0_def socks5_request_def
      read_n_def bailout_def)


lemma plain_auth_g_open_long:
  "plain_auth ex0 g_open [CHR 0x05, CHR 0x02]
      (CHR 0x01 # CHR 0x03 # ''bob'' @ CHR 0x80 # replicate 128 (CHR ''x'')) =
      Inl (Closed (bailout [CHR 0x05, CHR 0x02]))"
proof -
  have r: "read_negative ex0 (char_to_int ex0 (CHR 0x80)) (replicate 128 (CHR ''x'')) = (- 1, replicate 128 (CHR ''x''))"
    by (simp add: ex0_def)
  show ?thesis
    using plain_auth_negative [of "CHR 0x03" "''bob''" ex0 "CHR 0x80", OF _ _ r]
    by (simp add: char_to_int_0x80)
qed

text \<open>
  Claim C9. The user table is empty, a plain \<open>char\<close> is signed and \<open>read\<close> fails for a
  negative count. The client offers method 0x02 only; the worker selects it. The client
  submits \<open>bob\<close> with a password of 128 bytes (length byte 0x80): the worker takes the length
  for -128 and closes the connection after the two bytes 05 02, so that this pair is not
  accepted and the reply 01 00 is never written.
\<close>

theorem socks5_open_long_password:
  "select_method g_open [CHR 0x02] = 2
   \<and> socks5_thread ex0 g_open
     ([CHR 0x05, CHR 0x01, CHR 0x02] @ [CHR 0x01, CHR 0x03] @ ''bob'' @ [CHR 0x80] @ replicate 128 (CHR ''x''))
     = Closed \<lparr>sent = [CHR 0x05, CHR 0x02], route = None, tunnel = False\<rparr>"
proof -
  have m: "select_method g_open [CHR 0x02] = 2"
    by (simp add: select_method_open g_open_def g_users_def hlist_count_def)
  have g: "of_char (CHR 0x01) = length [CHR 0x02]" by simp
  have "socks5_thread ex0 g_open (CHR 0x05 # CHR 0x01 # [CHR 0x02] @
      (CHR 0x01 # CHR 0x03 # ''bob'' @ CHR 0x80 # replicate 128 (CHR ''x''))) =
      Closed (bailout [CHR 0x05, CHR 0x02])"
    unfolding socks5_thread_greeting [OF g] m using plain_auth_g_open_long by (simp add: char_of_2)
  with m show ?thesis by (simp add: bailout_def)
qed

section \<open>The no-proxy decision\<close>

lemma strtok_all_chars: "t \<in> set (strtok_all cur s) \<Longrightarrow> set t \<subseteq> set cur \<union> set s"
proof (induction s arbitrary: cur)
  case Nil
  then show ?case by (auto split: if_splits)
next
  case (Cons c cs)
  show ?case
  proof (cases "c = CHR '','' \<or> c = CHR '' ''")
    case False
    with Cons.prems have "t \<in> set (strtok_all (cur @ [c]) cs)" by simp
    from Cons.IH [OF this] show ?thesis by auto
  next
    case True
    with Cons.prems have "t = cur \<or> t \<in> set (strtok_all [] cs)" by (auto split: if_splits)
    then show ?thesis
    proof
      assume "t = cur" then show ?thesis by auto
    next
      assume "t \<in> set (strtok_all [] cs)"
      from Cons.IH [OF this] show ?thesis by auto
    qed
  qed
qed

lemma cstr_no_NUL: "CHR 0x00 \<notin> set (cstr s)"
  unfolding cstr_def by (induction s) auto

lemma cstr_id: "CHR 0x00 \<notin> set s \<Longrightarrow> cstr s = s"
  unfolding cstr_def by (induction s) auto

lemma noproxy_add_patterns:
  assumes "\<forall>p \<in> set list. strlen p \<noteq> 0"
  shows "\<forall>p \<in> set (noproxy_add list spec). strlen p \<noteq> 0"
proof
  fix p assume "p \<in> set (noproxy_add list spec)"
  then consider "p \<in> set list" | "p \<in> set (strtok_all [] (cstr spec))"
    by (auto simp: noproxy_add_def)
  then show "strlen p \<noteq> 0"
  proof cases
    case 1
    with assms show ?thesis by blast
  next
    case 2
    from strtok_all_chars [OF this] have "set p \<subseteq> set (cstr spec)" by simp
    with cstr_no_NUL [of spec] have "CHR 0x00 \<notin> set p" by auto
    moreover from 2 strtok_all_nonempty [of "[]" "cstr spec"] have "p \<noteq> []" by auto
    ultimately show ?thesis by (simp add: strlen_def cstr_id)
  qed
qed

lemma noproxy_list_patterns:
  "\<forall>p \<in> set list. strlen p \<noteq> 0 \<Longrightarrow> \<forall>p \<in> set (foldl noproxy_add list specs). strlen p \<noteq> 0"
proof (induction specs arbitrary: list)
  case Nil
  then show ?case by simp
next
  case (Cons spec specs)
  from Cons.prems have "\<forall>p \<in> set (noproxy_add list spec). strlen p \<noteq> 0"
    by (rule noproxy_add_patterns)
  from Cons.IH [OF this] show ?case by simp
qed

lemma noproxy_match_iff:
  "noproxy_match ex list addr \<longleftrightarrow> (\<exists>p \<in> set list. strlen p \<noteq> 0 \<and> fnmatch ex p addr = 0)"
  by (induction list) auto

lemma noproxy_match_configured:
  assumes "noproxy_list g = foldl noproxy_add [] specs"
    and "\<exists>p \<in> set (noproxy_list g). fnmatch ex p host = 0"
  shows "noproxy_match ex (noproxy_list g) host"
  using assms noproxy_list_patterns [of "[]" specs] by (auto simp: noproxy_match_iff)

text \<open>
  Claim C10. For a tunnel target \<open>host:port\<close> the no-proxy decision is the one
  \<open>noproxy_match\<close> makes for \<open>host\<close>, the part before the first colon; it is the same for
  every port, whatever \<open>fnmatch\<close> is: the patterns do not see the port.
\<close>

theorem tunnel_thread_host_only:
  assumes "CHR '':'' \<notin> set host" "CHR 0x00 \<notin> set host"
  shows "tunnel_thread ex g (host @ '':'' @ port) =
           (if noproxy_match ex (noproxy_list g) host then Direct_Tunnel else Forward_Tunnel)
       \<and> tunnel_thread ex g (host @ '':'' @ port) = tunnel_thread ex g (host @ '':'' @ port')"
proof -
  have "takeWhile (\<lambda>c. c \<noteq> CHR '':'') (cstr (host @ '':'' @ p)) = host" for p
    using assms unfolding cstr_def by (induction host) auto
  then show ?thesis by (simp add: tunnel_thread_def)
qed

theorem tunnel_thread_host_only_witness:
  "tunnel_thread ex0 g_users ''intra.local:22'' = Direct_Tunnel
   \<and> tunnel_thread ex0 g_users ''intra.local:22'' = tunnel_thread ex0 g_users ''intra.local:443''"
  using tunnel_thread_host_only [of "''intra.local''" ex0 g_users "''22''" "''443''"]
  by (auto simp add: noproxy_list_g_users ex0_def strlen_def cstr_def)


lemma serve_request_calls:
  "(h, rq) \<in> set (fst (serve_request ex b g request rets)) \<Longrightarrow> h = route_request ex b g rq"
proof (induction rets arbitrary: request)
  case Nil
  then show ?case by simp
next
  case (Cons r rets)
  show ?case
  proof (cases r)
    case (Ret_Request request')
    obtain calls fin rets' where s: "serve_request ex b g request' rets = (calls, fin, rets')"
      by (cases "serve_request ex b g request' rets") auto
    with Cons.prems Ret_Request have "(h, rq) = (route_request ex b g request, request) \<or> (h, rq) \<in> set calls"
      by simp
    then show ?thesis
    proof
      assume "(h, rq) = (route_request ex b g request, request)" then show ?thesis by simp
    next
      assume "(h, rq) \<in> set calls"
      with s have "(h, rq) \<in> set (fst (serve_request ex b g request' rets))" by simp
      then show ?thesis by (rule Cons.IH)
    qed
  qed (use Cons.prems in auto)
qed

lemma serve_request_first:
  "\<exists>calls. fst (serve_request ex b g request rets) = (route_request ex b g request, request) # calls"
  by (cases rets) (auto split: ret.splits prod.splits)

lemma proxy_thread_calls:
  "(h, rq) \<in> set (proxy_thread ex b g requests rets) \<Longrightarrow> h = route_request ex b g rq"
proof (induction requests arbitrary: rets)
  case Nil
  then show ?case by simp
next
  case (Cons request requests)
  obtain calls fin rets' where s: "serve_request ex b g request rets = (calls, fin, rets')"
    by (cases "serve_request ex b g request rets") auto
  from Cons.prems s have "(h, rq) \<in> set calls \<or> (h, rq) \<in> set (proxy_thread ex b g requests rets')"
    by (auto split: option.splits if_splits)
  then show ?case
  proof
    assume "(h, rq) \<in> set calls"
    with s have "(h, rq) \<in> set (fst (serve_request ex b g request rets))" by simp
    then show ?thesis by (rule serve_request_calls)
  next
    assume "(h, rq) \<in> set (proxy_thread ex b g requests rets')"
    then show ?thesis by (rule Cons.IH)
  qed
qed

lemma proxy_thread_first:
  "hd (proxy_thread ex b g (request # requests) rets) = (route_request ex b g request, request)"
proof -
  obtain calls fin rets' where s: "serve_request ex b g request rets = (calls, fin, rets')"
    by (cases "serve_request ex b g request rets") auto
  with serve_request_first [of ex b g request rets]
  obtain calls' where "calls = (route_request ex b g request, request) # calls'" by auto
  with s show ?thesis by (auto split: option.splits)
qed

lemma socks5_request_domain:
  assumes "of_char l = length addr"
  shows "socks5_request ex g w (v # CHR 0x01 # rsv # CHR 0x03 # l # addr @ p1 # p2 # rest) =
     socks5_connect ex g w (address_text ex (CHR 0x03) addr) (256 * of_char p1 + of_char p2)"
proof -
  have "read_n (length addr) (addr @ p1 # p2 # rest) = Some (addr, p1 # p2 # rest)"
    by (simp add: read_n_append)
  then show ?thesis using assms by (simp add: socks5_request_def read_n_def)
qed

lemma socks5_request_ipv4:
  "socks5_request ex g w (v # CHR 0x01 # rsv # CHR 0x01 # a1 # a2 # a3 # a4 # p1 # p2 # rest) =
     socks5_connect ex g w (address_text ex (CHR 0x01) [a1, a2, a3, a4]) (256 * of_char p1 + of_char p2)"
  by (simp add: socks5_request_def read_n_def)

text \<open>
  The no-proxy list is the one \<open>noproxy_add\<close> builds from the option values \<open>specs\<close>, and
  \<open>fnmatch\<close> accepts \<open>host\<close> for one of its patterns. Then the proxy worker hands every
  request for \<open>host\<close> to \<open>direct_request\<close>, in every build and whether or not the PAC
  evaluator is initialized; the tunnel worker calls \<open>direct_tunnel\<close> when \<open>host\<close> is the
  host part of its target; and the SOCKS5 worker calls \<open>host_connect\<close> for \<open>host\<close> and the
  port of the request when \<open>host\<close> is the text it has made of the address: for a domain name
  that is the name cut to \<open>MINIBUF_SIZE - 1\<close> bytes, not the name of the request.
\<close>

lemma noproxy_precedence:
  assumes "noproxy_list g = foldl noproxy_add [] specs"
    and "\<exists>p \<in> set (noproxy_list g). fnmatch ex p host = 0"
  shows "route_request ex b g \<lparr>hostname = host, proxy_keep_alive = ka\<rparr> = Direct_Request
       \<and> (\<forall>(h, rq) \<in> set (proxy_thread ex b g requests rets). hostname rq = host \<longrightarrow> h = Direct_Request)
       \<and> (hostname request = host \<longrightarrow>
            hd (proxy_thread ex b g (request # requests) rets) = (Direct_Request, request))
       \<and> (of_char l = length addr \<and> address_text ex (CHR 0x03) addr = host \<longrightarrow>
            route (socks5_request ex g w (v # CHR 0x01 # rsv # CHR 0x03 # l # addr @ p1 # p2 # rest)) =
              Some (Direct_Connect host (256 * of_char p1 + of_char p2)))
       \<and> (address_text ex (CHR 0x01) [a1, a2, a3, a4] = host \<longrightarrow>
            route (socks5_request ex g w (v # CHR 0x01 # rsv # CHR 0x01 # a1 # a2 # a3 # a4 # p1 # p2 # rest)) =
              Some (Direct_Connect host (256 * of_char p1 + of_char p2)))
       \<and> (takeWhile (\<lambda>c. c \<noteq> CHR '':'') (cstr thost) = host \<longrightarrow> tunnel_thread ex g thost = Direct_Tunnel)"
proof -
  have m: "noproxy_match ex (noproxy_list g) host"
    using assms by (rule noproxy_match_configured)
  have r: "route_request ex b g rq = Direct_Request" if "hostname rq = host" for rq
    using m that by (simp add: route_request_def)
  have c: "route (socks5_connect ex g w host port) = Some (Direct_Connect host port)" for port
    using m by (simp add: socks5_connect_def Let_def)
  have 1: "route_request ex b g \<lparr>hostname = host, proxy_keep_alive = ka\<rparr> = Direct_Request"
    by (simp add: r)
  have 2: "\<forall>(h, rq) \<in> set (proxy_thread ex b g requests rets). hostname rq = host \<longrightarrow> h = Direct_Request"
    using proxy_thread_calls [of _ _ ex b g requests rets] r by auto
  have 3: "hostname request = host \<longrightarrow>
            hd (proxy_thread ex b g (request # requests) rets) = (Direct_Request, request)"
    using proxy_thread_first [of ex b g request requests rets] r [of request] by auto
  have 4: "of_char l = length addr \<and> address_text ex (CHR 0x03) addr = host \<longrightarrow>
            route (socks5_request ex g w (v # CHR 0x01 # rsv # CHR 0x03 # l # addr @ p1 # p2 # rest)) =
              Some (Direct_Connect host (256 * of_char p1 + of_char p2))"
    using c by (auto simp: socks5_request_domain)
  have 5: "address_text ex (CHR 0x01) [a1, a2, a3, a4] = host \<longrightarrow>
            route (socks5_request ex g w (v # CHR 0x01 # rsv # CHR 0x01 # a1 # a2 # a3 # a4 # p1 # p2 # rest)) =
              Some (Direct_Connect host (256 * of_char p1 + of_char p2))"
    using c by (auto simp: socks5_request_ipv4)
  have 6: "takeWhile (\<lambda>c. c \<noteq> CHR '':'') (cstr thost) = host \<longrightarrow> tunnel_thread ex g thost = Direct_Tunnel"
    using m by (auto simp: tunnel_thread_def)
  from 1 2 3 4 5 6 show ?thesis by blast
qed

lemma dec_digit: "n < 10 \<Longrightarrow> dec n = [''0123456789'' ! n]"
  by (subst dec.simps) simp

lemma dec_more: "10 \<le> n \<Longrightarrow> dec n = dec (n div 10) @ [''0123456789'' ! (n mod 10)]"
  by (subst dec.simps) simp

lemma noproxy_precedence_examples:
  "proxy_thread ex0 b_pac g_users
      [\<lparr>hostname = ''intra.local'', proxy_keep_alive = False\<rparr>] [Ret_NULL] =
      [(Direct_Request, \<lparr>hostname = ''intra.local'', proxy_keep_alive = False\<rparr>)]
   \<and> route (socks5_request ex0 g_users []
        ([CHR 0x05, CHR 0x01, CHR 0x00, CHR 0x03, CHR 0x0B] @ ''intra.local'' @ [CHR 0x00, CHR 0x50])) =
      Some (Direct_Connect ''intra.local'' 80)
   \<and> route (socks5_request ex0 g_users []
        [CHR 0x05, CHR 0x01, CHR 0x00, CHR 0x01, CHR 0x0A, CHR 0x00, CHR 0x00, CHR 0x01, CHR 0x01, CHR 0xBB]) =
      Some (Direct_Connect ''10.0.0.1'' 443)
   \<and> tunnel_thread ex0 g_users ''intra.local:22'' = Direct_Tunnel"
proof -
  have l: "noproxy_list g_users = foldl noproxy_add [] [''intra.local, 10.0.0.1'']"
    by (simp add: g_users_def)
  have h1: "\<exists>p \<in> set (noproxy_list g_users). fnmatch ex0 p ''intra.local'' = 0"
    by (simp add: noproxy_list_g_users ex0_def)
  have h2: "\<exists>p \<in> set (noproxy_list g_users). fnmatch ex0 p ''10.0.0.1'' = 0"
    by (simp add: noproxy_list_g_users ex0_def)
  have a1: "address_text ex0 (CHR 0x03) ''intra.local'' = ''intra.local''"
    by (simp add: address_text_def strlcpy_def cstr_def ex0_def)
  have a2: "address_text ex0 (CHR 0x01) [CHR 0x0A, CHR 0x00, CHR 0x00, CHR 0x01] = ''10.0.0.1''"
    by (simp add: address_text_def ex0_def dec_digit dec_more)
  from noproxy_precedence [OF l h1, where b = b_pac and ka = False
      and requests = "[\<lparr>hostname = ''intra.local'', proxy_keep_alive = False\<rparr>]" and rets = "[Ret_NULL]"
      and request = "\<lparr>hostname = ''intra.local'', proxy_keep_alive = False\<rparr>"
      and l = "CHR 0x0B" and addr = "''intra.local''" and w = "[]" and v = "CHR 0x05" and rsv = "CHR 0x00"
      and ?p1.0 = "CHR 0x00" and ?p2.0 = "CHR 0x50" and rest = "[]" and thost = "''intra.local:22''"]
    noproxy_precedence [OF l h2, where w = "[]" and v = "CHR 0x05" and rsv = "CHR 0x00"
      and ?a1.0 = "CHR 0x0A" and ?a2.0 = "CHR 0x00" and ?a3.0 = "CHR 0x00" and ?a4.0 = "CHR 0x01"
      and ?p1.0 = "CHR 0x01" and ?p2.0 = "CHR 0xBB" and rest = "[]"]
  show ?thesis
    by (simp add: a1 a2 cstr_def route_request_def)
qed

lemma noproxy_list_g_local: "noproxy_list g_local = [''*.local'']"
  by (simp add: g_local_def g_open_def noproxy_add_def cstr_def)

lemma ex_glob_fields:
  "MINIBUF_SIZE ex_glob = 50" "host_connect ex_glob = (\<lambda>h p. 3)" "proxy_connect ex_glob = 4"
  "prepare_http_connect ex_glob = (\<lambda>sd h. 1)"
  "fnmatch ex_glob = (\<lambda>p s. if p = s \<or> (p = ''*.local'' \<and> drop (length s - 6) s = ''.local'') then 0 else 1)"
  by (simp_all add: ex_glob_def ex0_def)

text \<open>
  Claim C1. The no-proxy list is the pattern \<open>*.local\<close>, buffers have 50 bytes, and the host
  name of the request has 57 bytes and ends in \<open>.local\<close>: it matches the pattern, and the
  proxy worker hands a request for it to \<open>direct_request\<close>. The SOCKS5 worker matches the
  first 49 bytes of the name instead, finds no pattern for them and takes the upstream-proxy
  path, where it asks the proxy for the cut name (the colon and the port no longer fit).
\<close>

theorem socks5_long_name_via_proxy:
  "length long_name = 57
   \<and> noproxy_match ex_glob (noproxy_list g_local) long_name
   \<and> route_request ex_glob b_pac g_local \<lparr>hostname = long_name, proxy_keep_alive = False\<rparr> = Direct_Request
   \<and> socks5_thread ex_glob g_local
       ([CHR 0x05, CHR 0x01, CHR 0x00] @ [CHR 0x05, CHR 0x01, CHR 0x00, CHR 0x03, CHR 0x39] @ long_name @
        [CHR 0x00, CHR 0x50]) =
     Closed \<lparr>sent = [CHR 0x05, CHR 0x00] @ reply (CHR 0x00),
              route = Some (Via_Proxy ''build-cache-07.engineering.eu-central.corp-intran''),
              tunnel = True\<rparr>"
proof -
  have l: "length long_name = 57"
    by (simp add: long_name_def)
  have n: "noproxy_match ex_glob (noproxy_list g_local) long_name"
    by (simp add: noproxy_list_g_local ex_glob_fields long_name_def strlen_def cstr_def)
  have r: "route_request ex_glob b_pac g_local \<lparr>hostname = long_name, proxy_keep_alive = False\<rparr> = Direct_Request"
    using n by (simp add: route_request_def)
  have m: "select_method g_local [CHR 0x00] = 0"
    by (simp add: select_method_open g_local_def g_open_def hlist_count_def)
  have g: "of_char (CHR 0x01) = length [CHR 0x00]" by simp
  have a: "address_text ex_glob (CHR 0x03) long_name = ''build-cache-07.engineering.eu-central.corp-intran''"
    by (simp add: address_text_def strlcpy_def cstr_def ex_glob_fields long_name_def)
  have d: "dec 80 = ''80''"
    by (simp add: dec_digit dec_more)
  have c: "socks5_connect ex_glob g_local [CHR 0x05, CHR 0x00]
        ''build-cache-07.engineering.eu-central.corp-intran'' 80 =
      \<lparr>sent = [CHR 0x05, CHR 0x00] @ reply (CHR 0x00),
       route = Some (Via_Proxy ''build-cache-07.engineering.eu-central.corp-intran''), tunnel = True\<rparr>"
    by (simp add: socks5_connect_def noproxy_list_g_local ex_glob_fields strlen_def cstr_def d
        strlcat_def Let_def)
  have q: "socks5_request ex_glob g_local [CHR 0x05, CHR 0x00]
      (CHR 0x05 # CHR 0x01 # CHR 0x00 # CHR 0x03 # CHR 0x39 # long_name @ CHR 0x00 # CHR 0x50 # []) =
      socks5_connect ex_glob g_local [CHR 0x05, CHR 0x00]
        (address_text ex_glob (CHR 0x03) long_name) (256 * of_char (CHR 0x00) + of_char (CHR 0x50))"
    by (rule socks5_request_domain) (simp add: l)
  have "socks5_thread ex_glob g_local (CHR 0x05 # CHR 0x01 # [CHR 0x00] @
      (CHR 0x05 # CHR 0x01 # CHR 0x00 # CHR 0x03 # CHR 0x39 # long_name @ CHR 0x00 # CHR 0x50 # [])) =
      Closed \<lparr>sent = [CHR 0x05, CHR 0x00] @ reply (CHR 0x00),
              route = Some (Via_Proxy ''build-cache-07.engineering.eu-central.corp-intran''),
              tunnel = True\<rparr>"
    unfolding socks5_thread_greeting [OF g] m using q a c by (simp add: char_of_0)
  with l n r show ?thesis by simp
qed

section \<open>The Auth option\<close>

lemma strcasecmp_literals:
  "strcasecmp_eq ''ntlm'' a \<longleftrightarrow> map tolower_c (cstr a) = ''ntlm''"
  "strcasecmp_eq ''nt'' a \<longleftrightarrow> map tolower_c (cstr a) = ''nt''"
  "strcasecmp_eq ''lm'' a \<longleftrightarrow> map tolower_c (cstr a) = ''lm''"
  "strcasecmp_eq ''ntlmv2'' a \<longleftrightarrow> map tolower_c (cstr a) = ''ntlmv2''"
  "strcasecmp_eq ''ntlm2sr'' a \<longleftrightarrow> map tolower_c (cstr a) = ''ntlm2sr''"
  "strcasecmp_eq ''gss'' a \<longleftrightarrow> map tolower_c (cstr a) = ''gss''"
  unfolding strcasecmp_eq_def by (simp_all add: cstr_def tolower_c_def eq_commute)


lemma strlen_lower: "strlen a \<noteq> 0 \<longleftrightarrow> map tolower_c (cstr a) \<noteq> []"
  by (simp add: strlen_def)

lemma lower_examples:
  "map tolower_c (cstr ''NtLm'') = ''ntlm''"
  "map tolower_c (cstr ''ntlm2SR'') = ''ntlm2sr''"
  "map tolower_c (cstr ''gss'') = ''gss''"
  "map tolower_c (cstr ''basic'') = ''basic''"
  by (simp_all add: cstr_def tolower_c_def)

text \<open>
  Claim C8 says that every value of \<open>Auth\<close> other than the five names ends the process. In
  a build with \<open>ENABLE_KERBEROS\<close> the value \<open>gss\<close> is a sixth name: it does not end the
  process.
\<close>

theorem parse_auth_counterexample:
  "parse_auth b_krb sx0 ''gss'' auth0 =
     Inr (auth0\<lparr>haskrb := 1, hashnt := 0, hashlm := 0, hashntlm2 := 0\<rparr>)
   \<and> parse_auth b_krb sx0 ''gss'' auth0 \<noteq> Inl (Unknown_Auth, 1)"
  unfolding parse_auth_def strcasecmp_literals strlen_lower lower_examples
  by (simp add: b_krb_def sx0_def)

text \<open>
  Claim C8, amended. The value of \<open>Auth\<close> is compared without regard to case. When it is
  empty the credential is left as it is; \<open>ntlm\<close> sets \<open>hashnt\<close> and \<open>hashlm\<close> to 1 and
  \<open>hashntlm2\<close> to 0, \<open>nt\<close> only \<open>hashnt\<close>, \<open>lm\<close> only \<open>hashlm\<close>, \<open>ntlmv2\<close> only \<open>hashntlm2\<close>,
  \<open>ntlm2sr\<close> sets \<open>hashnt\<close> to 2 and the other two to 0; in a build with \<open>ENABLE_KERBEROS\<close>,
  \<open>gss\<close> sets \<open>haskrb\<close> and clears the three flags; every other value ends the process
  with status 1.
\<close>

theorem parse_auth_flags:
  "parse_auth b sx auth creds =
     (let a = map tolower_c (cstr auth)
      in if a = [] then Inr creds
         else if a = ''ntlm'' then Inr (creds\<lparr>hashnt := 1, hashlm := 1, hashntlm2 := 0\<rparr>)
         else if a = ''nt'' then Inr (creds\<lparr>hashnt := 1, hashlm := 0, hashntlm2 := 0\<rparr>)
         else if a = ''lm'' then Inr (creds\<lparr>hashnt := 0, hashlm := 1, hashntlm2 := 0\<rparr>)
         else if a = ''ntlmv2'' then Inr (creds\<lparr>hashnt := 0, hashlm := 0, hashntlm2 := 1\<rparr>)
         else if a = ''ntlm2sr'' then Inr (creds\<lparr>hashnt := 2, hashlm := 0, hashntlm2 := 0\<rparr>)
         else if ENABLE_KERBEROS b \<and> a = ''gss''
         then Inr (creds\<lparr>haskrb := KRB_FORCE_USE_KRB sx, hashnt := 0, hashlm := 0, hashntlm2 := 0\<rparr>)
         else Inl (Unknown_Auth, 1))"
  unfolding parse_auth_def strcasecmp_literals strlen_lower myexit_def Let_def
  by (cases "map tolower_c (cstr auth) = []") simp_all


theorem parse_auth_flags_witness:
  "parse_auth b_pac sx0 ''NtLm'' auth0 = Inr (auth0\<lparr>hashnt := 1, hashlm := 1, hashntlm2 := 0\<rparr>)
   \<and> parse_auth b_pac sx0 ''ntlm2SR'' auth0 = Inr (auth0\<lparr>hashnt := 2, hashlm := 0, hashntlm2 := 0\<rparr>)
   \<and> parse_auth b_pac sx0 ''gss'' auth0 = Inl (Unknown_Auth, 1)
   \<and> parse_auth b_pac sx0 ''basic'' auth0 = Inl (Unknown_Auth, 1)"
  using parse_auth_flags [of b_pac sx0 "''NtLm''" auth0] parse_auth_flags [of b_pac sx0 "''ntlm2SR''" auth0]
    parse_auth_flags [of b_pac sx0 "''gss''" auth0] parse_auth_flags [of b_pac sx0 "''basic''" auth0]
  unfolding lower_examples by (simp add: b_pac_def)

section \<open>The plaintext password\<close>

lemma cstr_replicate_NUL: "0 < n \<Longrightarrow> cstr (replicate n (CHR 0x00) @ rest) = []"
  by (cases n) (simp_all add: cstr_def)

lemma length_cstr_le: "length (cstr buf) \<le> length buf"
  by (simp add: cstr_def length_takeWhile_le)

lemma memset0_strlen:
  "memset0 buf (strlen buf) = replicate (strlen buf) (CHR 0x00) @ drop (strlen buf) buf"
  using length_cstr_le [of buf] by (simp add: memset0_def strlen_def min_def)

lemma load_password_plain:
  assumes "strlen (cpassword cf) \<noteq> 0"
  shows "\<exists>creds'. load_password sx cf creds =
            Inr (creds', replicate (strlen (cpassword cf)) (CHR 0x00) @ drop (strlen (cpassword cf)) (cpassword cf))
          \<and> (hashnt creds \<noteq> 0 \<longrightarrow>
                passnt creds' = auth_memcpy (passnt creds) (ntlm_hash_nt_password sx (cstr (cpassword cf))) 21)
          \<and> (hashlm creds \<noteq> 0 \<longrightarrow>
                passlm creds' = auth_memcpy (passlm creds) (ntlm_hash_lm_password sx (cstr (cpassword cf))) 21)
          \<and> (hashntlm2 creds \<noteq> 0 \<longrightarrow>
                passntlm2 creds' = auth_memcpy (passntlm2 creds)
                  (ntlm2_hash_password sx (cstr (cuser cf)) (cstr (cdomain cf)) (cstr (cpassword cf))) 16)"
  using assms by (simp add: load_password_def Let_def memset0_strlen)


lemma startup_Inr:
  assumes "startup b sx cf creds0 = Inr d"
  shows "\<exists>c1 c3.
           parse_auth b sx (cauth cf) creds0 = Inr c1
         \<and> load_password sx cf (if cflags cf \<noteq> 0 then c1\<lparr>flags := cflags cf\<rparr> else c1) =
             Inr (c3, cpassword_freed d)
         \<and> g_creds d =
             (if ENABLE_KERBEROS b then c3\<lparr>haskrb := or (haskrb c3) (check_credential sx)\<rparr> else c3)
               \<lparr>user := cstr (cuser cf), domain := cstr (cdomain cf)\<rparr>
         \<and> \<not> password_missing b cf (g_creds d)
         \<and> proxyd_list cf \<noteq> []
         \<and> (parent_list cf \<noteq> [] \<or> (ENABLE_PACPARSER b \<and> pac cf \<noteq> 0))
         \<and> (ENABLE_PACPARSER b \<and> pac cf \<noteq> 0 \<longrightarrow> pac_file_opens sx)
         \<and> magic_detect cf = None \<and> interactivehash cf = 0"
proof -
  from assms obtain c1 where c1: "parse_auth b sx (cauth cf) creds0 = Inr c1"
    by (cases "parse_auth b sx (cauth cf) creds0") (auto simp: startup_def split: if_splits)
  let ?c2 = "if cflags cf \<noteq> 0 then c1\<lparr>flags := cflags cf\<rparr> else c1"
  from assms c1 obtain c3 buf where c3: "load_password sx cf ?c2 = Inr (c3, buf)"
    by (cases "load_password sx cf ?c2") (auto simp: startup_def Let_def split: if_splits)
  show ?thesis
    using assms c1 c3
    by (auto simp: startup_def Let_def split: if_splits option.splits)
qed


lemma parse_auth_pass:
  assumes "parse_auth b sx auth creds = Inr c1"
  shows "passnt c1 = passnt creds \<and> passlm c1 = passlm creds \<and> passntlm2 c1 = passntlm2 creds"
  using assms by (auto simp: parse_auth_def split: if_splits)

lemma load_password_flags:
  assumes "load_password sx cf creds = Inr (c3, buf)"
  shows "hashnt c3 = hashnt creds \<and> hashlm c3 = hashlm creds \<and> hashntlm2 c3 = hashntlm2 creds"
  using assms by (auto simp: load_password_def Let_def split: if_splits sum.splits)

lemma cstr_append_NULs: "CHR 0x00 \<notin> set s \<Longrightarrow> cstr (s @ replicate k (CHR 0x00)) = s"
  unfolding cstr_def by (induction s) (auto simp add: takeWhile_eq_Nil_iff)

lemma option_p_wiped:
  assumes "buf = fst (option_p ex optarg)" "strlen buf \<noteq> 0"
  shows "replicate (strlen buf) (CHR 0x00) @ drop (strlen buf) buf = replicate (MINIBUF_SIZE ex) (CHR 0x00)"
proof -
  let ?s = "strlcpy optarg (MINIBUF_SIZE ex)"
  have b: "buf = ?s @ replicate (MINIBUF_SIZE ex - length ?s) (CHR 0x00)"
    using assms(1) by (simp add: option_p_def Let_def)
  have "set ?s \<subseteq> set (cstr optarg)"
    by (simp add: strlcpy_def set_take_subset)
  with cstr_no_NUL [of optarg] have n: "CHR 0x00 \<notin> set ?s" by auto
  have l: "strlen buf = length ?s"
    by (subst b) (simp add: strlen_def cstr_append_NULs [OF n])
  have "length ?s \<le> MINIBUF_SIZE ex"
    by (simp add: strlcpy_def)
  then have "replicate (length ?s) (CHR 0x00) @ replicate (MINIBUF_SIZE ex - length ?s) (CHR 0x00) =
      replicate (MINIBUF_SIZE ex) (CHR 0x00)"
    by (simp add: replicate_add [symmetric])
  then show ?thesis
    unfolding l by (subst b) simp
qed

text \<open>
  A plaintext password is in the buffer \<open>cpassword\<close> and the startup reaches the accept
  loop. Then every byte of the string in the buffer has been overwritten with a zero byte,
  the bytes behind its end are as they were, and the buffer holds the empty string when it
  is freed; a buffer filled by the option \<open>-p\<close> alone is all zero bytes; and each hash the
  credential selects is the one its hash function computes from the password.
\<close>

lemma cleartext_password_wiped:
  assumes "strlen (cpassword cf) \<noteq> 0"
    and "startup b sx cf creds0 = Inr d"
  shows "cpassword_freed d =
           replicate (strlen (cpassword cf)) (CHR 0x00) @ drop (strlen (cpassword cf)) (cpassword cf)
       \<and> strlen (cpassword_freed d) = 0
       \<and> (cpassword cf = fst (option_p ex optarg) \<longrightarrow>
            cpassword_freed d = replicate (MINIBUF_SIZE ex) (CHR 0x00))
       \<and> (hashnt (g_creds d) \<noteq> 0 \<longrightarrow>
            passnt (g_creds d) =
              auth_memcpy (passnt creds0) (ntlm_hash_nt_password sx (cstr (cpassword cf))) 21)
       \<and> (hashlm (g_creds d) \<noteq> 0 \<longrightarrow>
            passlm (g_creds d) =
              auth_memcpy (passlm creds0) (ntlm_hash_lm_password sx (cstr (cpassword cf))) 21)
       \<and> (hashntlm2 (g_creds d) \<noteq> 0 \<longrightarrow>
            passntlm2 (g_creds d) =
              auth_memcpy (passntlm2 creds0)
                (ntlm2_hash_password sx (cstr (cuser cf)) (cstr (cdomain cf)) (cstr (cpassword cf))) 16)"
proof -
  let ?w = "replicate (strlen (cpassword cf)) (CHR 0x00) @ drop (strlen (cpassword cf)) (cpassword cf)"
  from startup_Inr [OF assms(2)] obtain c1 c3 where
    c1: "parse_auth b sx (cauth cf) creds0 = Inr c1" and
    c3: "load_password sx cf (if cflags cf \<noteq> 0 then c1\<lparr>flags := cflags cf\<rparr> else c1) =
             Inr (c3, cpassword_freed d)" and
    g: "g_creds d =
             (if ENABLE_KERBEROS b then c3\<lparr>haskrb := or (haskrb c3) (check_credential sx)\<rparr> else c3)
               \<lparr>user := cstr (cuser cf), domain := cstr (cdomain cf)\<rparr>"
    by blast
  let ?c2 = "if cflags cf \<noteq> 0 then c1\<lparr>flags := cflags cf\<rparr> else c1"
  from load_password_plain [OF assms(1), of sx ?c2] c3 obtain creds' where
    w: "cpassword_freed d = ?w" and e: "c3 = creds'" and
    h1: "hashnt ?c2 \<noteq> 0 \<longrightarrow>
           passnt creds' = auth_memcpy (passnt ?c2) (ntlm_hash_nt_password sx (cstr (cpassword cf))) 21" and
    h2: "hashlm ?c2 \<noteq> 0 \<longrightarrow>
           passlm creds' = auth_memcpy (passlm ?c2) (ntlm_hash_lm_password sx (cstr (cpassword cf))) 21" and
    h3: "hashntlm2 ?c2 \<noteq> 0 \<longrightarrow>
           passntlm2 creds' = auth_memcpy (passntlm2 ?c2)
             (ntlm2_hash_password sx (cstr (cuser cf)) (cstr (cdomain cf)) (cstr (cpassword cf))) 16"
    by auto
  have f: "hashnt c3 = hashnt ?c2 \<and> hashlm c3 = hashlm ?c2 \<and> hashntlm2 c3 = hashntlm2 ?c2"
    using c3 by (rule load_password_flags)
  have p: "passnt ?c2 = passnt creds0 \<and> passlm ?c2 = passlm creds0 \<and> passntlm2 ?c2 = passntlm2 creds0"
    using parse_auth_pass [OF c1] by simp
  have gf: "hashnt (g_creds d) = hashnt c3 \<and> hashlm (g_creds d) = hashlm c3
        \<and> hashntlm2 (g_creds d) = hashntlm2 c3 \<and> passnt (g_creds d) = passnt c3
        \<and> passlm (g_creds d) = passlm c3 \<and> passntlm2 (g_creds d) = passntlm2 c3"
    by (simp add: g)
  have z: "strlen ?w = 0"
    using assms(1) by (simp add: strlen_def cstr_replicate_NUL)
  have o: "cpassword cf = fst (option_p ex optarg) \<longrightarrow> ?w = replicate (MINIBUF_SIZE ex) (CHR 0x00)"
    using option_p_wiped [of "cpassword cf" ex optarg] assms(1) by blast
  show ?thesis
    using w z o h1 h2 h3 f p gf e by simp
qed


lemma list_all_replicate: "list_all P (replicate n x) \<longleftrightarrow> n = 0 \<or> P x"
  by (induction n) auto

lemma cf0_cpassword: "cpassword cf0 = ''s3cret'' @ replicate 44 (CHR 0x00)"
  by (simp add: cf0_def option_p_def ex0_def strlcpy_def cstr_def Let_def)

lemma cf0_fields:
  "interactivehash cf0 = 0" "magic_detect cf0 = None" "pac cf0 = 0"
  "parent_list cf0 = [''proxy.corp:8080'']" "proxyd_list cf0 = [(3, None)]"
  "socksd_list cf0 = [(4, None)]" "tunneld_list cf0 = [(5, Some ''intra.local:22'')]"
  "cauth cf0 = ''NTLMv2''" "cflags cf0 = 0"
  "cpassntlm2 cf0 = []" "cpassnt cf0 = []" "cpasslm cf0 = []"
  "cuser cf0 = ''alice''" "cdomain cf0 = ''corp''" "ntlmbasic cf0 = 0" "asdaemon cf0 = 0"
  "cuid cf0 = []" "cpidfile cf0 = []"
  by (simp_all add: cf0_def)

lemma strlen_cf0_cpassword: "strlen (cpassword cf0) = 6"
  by (simp add: cf0_cpassword strlen_def cstr_def)

lemma startup_cf0: "startup b_pac sx0 cf0 auth0 = Inr d0"
proof -
  have a: "parse_auth b_pac sx0 (cauth cf0) auth0 = Inr (auth0\<lparr>hashnt := 0, hashlm := 0, hashntlm2 := 1\<rparr>)"
    unfolding parse_auth_def strcasecmp_literals strlen_lower
    by (simp add: cf0_fields cstr_def tolower_c_def)
  have l: "load_password sx0 cf0 (auth0\<lparr>hashnt := 0, hashlm := 0, hashntlm2 := 1\<rparr>) =
      Inr (auth0\<lparr>hashnt := 0, hashlm := 0, hashntlm2 := 1,
             passntlm2 := replicate 16 (CHR ''V'') @ replicate 34 (CHR 0x00)\<rparr>, replicate 50 (CHR 0x00))"
  proof -
    have w: "memset0 (cpassword cf0) 6 = replicate 50 (CHR 0x00)"
      by (simp add: memset0_def cf0_cpassword replicate_add [symmetric])
    show ?thesis
      unfolding load_password_def strlen_cf0_cpassword w
      by (simp add: cf0_fields Let_def auth_memcpy_def sx0_def auth0_def)
  qed
  have m: "\<not> password_missing b_pac cf0 (g_creds d0)"
    by (simp add: password_missing_def d0_def auth0_def is_memory_all_zero_def list_all_replicate)
  show ?thesis
    unfolding startup_def a
    using m by (simp add: l b_pac_def change_uid_def write_pidfile_def strlen_def cstr_def cf0_fields d0_def)
qed

lemma cleartext_password_wiped_example:
  "startup b_pac sx0 cf0 auth0 = Inr d0
   \<and> cpassword cf0 = ''s3cret'' @ replicate 44 (CHR 0x00)
   \<and> cpassword_freed d0 = replicate 50 (CHR 0x00)
   \<and> passntlm2 (g_creds d0) = auth_memcpy (passntlm2 auth0) (ntlm2_hash_password sx0 ''alice'' ''corp'' ''s3cret'') 16"
proof -
  have n: "strlen (cpassword cf0) \<noteq> 0"
    by (simp add: strlen_cf0_cpassword)
  have o: "cpassword cf0 = fst (option_p ex0 ''s3cret'')"
    by (simp add: cf0_def)
  have c: "cstr (cpassword cf0) = ''s3cret''" "cstr (cuser cf0) = ''alice''" "cstr (cdomain cf0) = ''corp''"
    by (simp_all add: cf0_cpassword cf0_fields cstr_def)
  have h: "hashntlm2 (g_creds d0) \<noteq> 0"
    by (simp add: d0_def)
  note t = cleartext_password_wiped [OF n startup_cf0, of ex0 "''s3cret''"]
  from t o have f: "cpassword_freed d0 = replicate (MINIBUF_SIZE ex0) (CHR 0x00)"
    by blast
  from t h have p: "passntlm2 (g_creds d0) =
      auth_memcpy (passntlm2 auth0)
        (ntlm2_hash_password sx0 (cstr (cuser cf0)) (cstr (cdomain cf0)) (cstr (cpassword cf0))) 16"
    by blast
  have "MINIBUF_SIZE ex0 = 50"
    by (simp add: ex0_def)
  with f p show ?thesis
    by (simp add: startup_cf0 cf0_cpassword cf0_fields cstr_def)
qed

lemma cf_typed_cpassword: "cpassword cf_typed = ''longpassword'' @ replicate 38 (CHR 0x00)"
  by (simp add: cf_typed_def option_p_def ex0_def strlcpy_def cstr_def Let_def)

lemma cf_prompted_fields:
  "interactivehash cf_prompted = 0" "magic_detect cf_prompted = None" "pac cf_prompted = 0"
  "parent_list cf_prompted = [''proxy.corp:8080'']" "proxyd_list cf_prompted = [(3, None)]"
  "cauth cf_prompted = ''NTLMv2''" "cflags cf_prompted = 0"
  "cuser cf_prompted = ''alice''" "cdomain cf_prompted = ''corp''" "ntlmbasic cf_prompted = 0"
  "asdaemon cf_prompted = 0" "cuid cf_prompted = []" "cpidfile cf_prompted = []"
  "interactivepwd cf_prompted = 1"
  "cpassword cf_prompted = ''ab'' @ [CHR 0x00, CHR 0x00] @ ''password'' @ replicate 38 (CHR 0x00)"
  by (simp_all add: cf_prompted_def cf_typed_def cf0_fields)

lemma prompt_password_cf_typed: "prompt_password ex0 cf_typed (''ab'' @ [CHR 0x0A]) = Some cf_prompted"
proof -
  have f: "fgets (cpassword cf_typed) 50 (''ab'' @ [CHR 0x0A]) =
      ''ab'' @ [CHR 0x0A, CHR 0x00] @ ''password'' @ replicate 38 (CHR 0x00)"
    by (simp add: fgets_def cf_typed_cpassword Let_def)
  have m: "MINIBUF_SIZE ex0 = 50" by (simp add: ex0_def)
  have c: "interactivepwd cf_typed = 1" "ntlmbasic cf_typed = 0"
    by (simp_all add: cf_typed_def cf0_fields)
  show ?thesis
    unfolding prompt_password_def m f
    by (simp add: c strlen_def cstr_def Let_def cf_prompted_def)
qed

lemma startup_cf_prompted: "startup b_pac sx0 cf_prompted auth0 = Inr d_prompted"
proof -
  have a: "parse_auth b_pac sx0 (cauth cf_prompted) auth0 = Inr (auth0\<lparr>hashnt := 0, hashlm := 0, hashntlm2 := 1\<rparr>)"
    unfolding parse_auth_def strcasecmp_literals strlen_lower
    by (simp add: cf_prompted_fields cstr_def tolower_c_def)
  have s: "strlen (cpassword cf_prompted) = 2"
    by (simp add: cf_prompted_fields strlen_def cstr_def)
  have l: "load_password sx0 cf_prompted (auth0\<lparr>hashnt := 0, hashlm := 0, hashntlm2 := 1\<rparr>) =
      Inr (auth0\<lparr>hashnt := 0, hashlm := 0, hashntlm2 := 1,
             passntlm2 := replicate 16 (CHR ''V'') @ replicate 34 (CHR 0x00)\<rparr>,
           replicate 4 (CHR 0x00) @ ''password'' @ replicate 38 (CHR 0x00))"
  proof -
    have w: "memset0 (cpassword cf_prompted) 2 = replicate 4 (CHR 0x00) @ ''password'' @ replicate 38 (CHR 0x00)"
      by (simp add: memset0_def cf_prompted_fields eval_nat_numeral)
    show ?thesis
      unfolding load_password_def s w
      by (simp add: cf_prompted_fields Let_def auth_memcpy_def sx0_def auth0_def)
  qed
  have m: "\<not> password_missing b_pac cf_prompted (g_creds d_prompted)"
    by (simp add: password_missing_def d_prompted_def d0_def auth0_def is_memory_all_zero_def list_all_replicate)
  show ?thesis
    unfolding startup_def a
    using m by (simp add: l b_pac_def change_uid_def write_pidfile_def strlen_def cstr_def
        cf_prompted_fields d_prompted_def d0_def)
qed

text \<open>
  Claim C7. The password \<open>longpassword\<close> is given with the option \<open>-p\<close>, the option \<open>-I\<close> asks
  for the password again and \<open>ab\<close> is typed. The prompt writes \<open>ab\<close> over the start of the
  buffer, the hash is computed from \<open>ab\<close>, and \<open>memset\<close> clears the two bytes of \<open>ab\<close>: the
  startup reaches the accept loop with the bytes \<open>password\<close> of the first password still in
  the buffer that is freed.
\<close>

theorem password_residue:
  "cpassword cf_typed = fst (option_p ex0 ''longpassword'')
   \<and> prompt_password ex0 cf_typed (''ab'' @ [CHR 0x0A]) = Some cf_prompted
   \<and> startup b_pac sx0 cf_prompted auth0 = Inr d_prompted
   \<and> cpassword_freed d_prompted = replicate 4 (CHR 0x00) @ ''password'' @ replicate 38 (CHR 0x00)"
proof (intro conjI)
  show "cpassword cf_typed = fst (option_p ex0 ''longpassword'')"
    by (simp add: cf_typed_def)
  show "prompt_password ex0 cf_typed (''ab'' @ [CHR 0x0A]) = Some cf_prompted"
    by (rule prompt_password_cf_typed)
  show "startup b_pac sx0 cf_prompted auth0 = Inr d_prompted"
    by (rule startup_cf_prompted)
  show "cpassword_freed d_prompted = replicate 4 (CHR 0x00) @ ''password'' @ replicate 38 (CHR 0x00)"
    by (simp add: d_prompted_def)
qed

theorem password_residue_witness:
  "(case prompt_password ex0 cf_typed (''ab'' @ [CHR 0x0A]) of
      None \<Rightarrow> None
    | Some cf \<Rightarrow>
        (case startup b_pac sx0 cf auth0 of
           Inl e \<Rightarrow> None
         | Inr d \<Rightarrow> Some (take 8 (drop 4 (cpassword_freed d))))) = Some ''password''"
  using password_residue by simp

section \<open>Signals, the accept loop and the dispatch\<close>

lemma sighandler_first: "sighandler dbg 0 = (if dbg = 0 then 1 else 2)"
  by (simp add: sighandler_def)

lemma sighandler_again: "0 < q \<Longrightarrow> sighandler dbg q = q + 2"
  by (simp add: sighandler_def)

lemma accept_all_workers:
  "map fst (snd (accept_all ser cf cs tid n log)) =
     map fst log @ map (\<lambda>c. dispatch cf (listener c) (accepted c)) (filter (\<lambda>c. 0 \<le> accepted c) cs)"
  by (induction cs arbitrary: tid n log) (simp_all add: Let_def)

lemma accept_loop_forced: "2 \<le> quit s \<Longrightarrow> accept_loop dbg ser cf s rounds = Some s"
  by (cases rounds) (simp_all add: loop_cond_def)

lemma accept_loop_drained: "quit s \<noteq> 0 \<Longrightarrow> tc s = tj s \<Longrightarrow> accept_loop dbg ser cf s rounds = Some s"
  by (cases rounds) (simp_all add: loop_cond_def)

lemma loop_body_workers:
  assumes "select r (watched cf) tv = (cd, ready)" "0 < cd"
  shows "map fst (started (loop_body dbg ser cf s r)) =
     map fst (started s) @ map (\<lambda>c. dispatch cf (listener c) (accepted c)) (filter (\<lambda>c. 0 \<le> accepted c) ready)"
proof -
  obtain n log where a: "accept_all ser cf ready 0 (tc s) (started s) = (n, log)"
    by (cases "accept_all ser cf ready 0 (tc s) (started s)") auto
  with accept_all_workers [of ser cf ready 0 "tc s" "started s"]
  have "map fst log = map fst (started s) @
      map (\<lambda>c. dispatch cf (listener c) (accepted c)) (filter (\<lambda>c. 0 \<le> accepted c) ready)"
    by simp
  with assms a show ?thesis by (simp add: loop_body_def)
qed

lemma dispatch_tunnel:
  assumes "distinct (watched cf)" "(i, Some target) \<in> set (tunneld_list cf)"
  shows "dispatch cf i cd = Tunnel_Worker cd (Some target)"
proof -
  from assms(2) have i: "i \<in> fst ` set (tunneld_list cf)" by force
  from assms(1) have d: "distinct (map fst (tunneld_list cf))"
    and p: "fst ` set (proxyd_list cf) \<inter> fst ` set (tunneld_list cf) = {}"
    and s: "fst ` set (socksd_list cf) \<inter> fst ` set (tunneld_list cf) = {}"
    by (auto simp: watched_def)
  from d assms(2) have "map_of (tunneld_list cf) i = Some (Some target)" by simp
  with i p s show ?thesis by (auto simp: dispatch_def plist_in_def plist_get_def)
qed


lemma loop_body_quit:
  "loop_body dbg ser cf s r =
     (loop_body dbg ser cf (s\<lparr>quit := 0\<rparr>) r)\<lparr>quit := (sighandler dbg ^^ signals r) (quit s)\<rparr>"
  by (simp add: loop_body_def split: prod.splits)

text \<open>
  Claim C4 says that after the first signal the acceptor stops accepting new connections and
  keeps looping until every created worker is joined. After a first signal (no debug mode)
  with one worker not yet joined, the loop goes on and its next round accepts the three
  connections that are ready and starts their workers. In debug mode the first signal
  already sets \<open>quit\<close> to 2, and the loop ends although a worker is not joined.
\<close>

theorem drain_counterexample:
  "loop_cond \<lparr>quit = sighandler 0 0, tc = 1, tj = 0, started = []\<rparr>
   \<and> started (loop_body 0 0 cf0 \<lparr>quit = sighandler 0 0, tc = 1, tj = 0, started = []\<rparr> r_ready) =
       [(Proxy_Worker 10, 0), (Socks5_Worker 11, 0), (Tunnel_Worker 12 (Some ''intra.local:22''), 0)]
   \<and> tc (loop_body 0 0 cf0 \<lparr>quit = sighandler 0 0, tc = 1, tj = 0, started = []\<rparr> r_ready) = 4
   \<and> sighandler 1 0 = 2
   \<and> \<not> loop_cond \<lparr>quit = sighandler 1 0, tc = 1, tj = 0, started = []\<rparr>"
  by (simp add: sighandler_def loop_cond_def loop_body_def r_ready_def watched_def tv_def cf0_fields
      dispatch_def plist_in_def plist_get_def)

text \<open>
  Claim C4, amended. The first signal sets \<open>quit\<close> to 1 (to 2 in debug mode), a second one
  raises it to 3. With \<open>quit = 1\<close> the loop runs exactly as long as the number of created
  threads differs from the number of joined ones, and a round of it accepts and starts what
  it would without the signal (the body does not read \<open>quit\<close>). With \<open>quit\<close> at 2 or more the
  loop ends whatever the two numbers are.
\<close>

theorem shutdown_signals:
  "sighandler dbg 0 = (if dbg = 0 then 1 else 2)
   \<and> sighandler dbg 1 = 3
   \<and> (quit s = 1 \<longrightarrow> loop_cond s = (tc s \<noteq> tj s))
   \<and> (2 \<le> quit s \<longrightarrow> \<not> loop_cond s \<and> accept_loop dbg ser cf s rounds = Some s)
   \<and> (quit s = 1 \<and> tc s = tj s \<longrightarrow> accept_loop dbg ser cf s rounds = Some s)
   \<and> (quit s = 1 \<and> tc s \<noteq> tj s \<longrightarrow>
        accept_loop dbg ser cf s (r # rounds) = accept_loop dbg ser cf (loop_body dbg ser cf s r) rounds)
   \<and> loop_body dbg ser cf s r =
        (loop_body dbg ser cf (s\<lparr>quit := 0\<rparr>) r)\<lparr>quit := (sighandler dbg ^^ signals r) (quit s)\<rparr>"
proof -
  have 1: "sighandler dbg 0 = (if dbg = 0 then 1 else 2)" by (rule sighandler_first)
  have 2: "sighandler dbg 1 = 3" by (simp add: sighandler_again)
  have 3: "quit s = 1 \<longrightarrow> loop_cond s = (tc s \<noteq> tj s)" by (simp add: loop_cond_def)
  have 4: "2 \<le> quit s \<longrightarrow> \<not> loop_cond s \<and> accept_loop dbg ser cf s rounds = Some s"
    by (simp add: accept_loop_forced) (simp add: loop_cond_def)
  have 5: "quit s = 1 \<and> tc s = tj s \<longrightarrow> accept_loop dbg ser cf s rounds = Some s"
    by (simp add: accept_loop_drained)
  have 6: "quit s = 1 \<and> tc s \<noteq> tj s \<longrightarrow>
        accept_loop dbg ser cf s (r # rounds) = accept_loop dbg ser cf (loop_body dbg ser cf s r) rounds"
    by (simp add: loop_cond_def)
  from 1 2 3 4 5 6 loop_body_quit [of dbg ser cf s r] show ?thesis by blast
qed

theorem shutdown_signals_witness:
  "accept_loop 0 0 cf0 s_draining [r_signals 1] = Some (s_draining\<lparr>quit := 3\<rparr>)
   \<and> accept_loop 0 0 cf0 (s_draining\<lparr>tj := 1\<rparr>) [r_ready] = Some (s_draining\<lparr>tj := 1\<rparr>)
   \<and> sighandler 0 0 = 1"
proof -
  have b: "loop_body 0 0 cf0 s_draining (r_signals 1) = s_draining\<lparr>quit := 3\<rparr>"
    by (simp add: loop_body_def r_signals_def s_draining_def sighandler_def)
  have q: "quit s_draining = 1 \<and> tc s_draining \<noteq> tj s_draining"
    by (simp add: s_draining_def)
  have q1: "quit (s_draining\<lparr>tj := 1\<rparr>) = 1 \<and> tc (s_draining\<lparr>tj := 1\<rparr>) = tj (s_draining\<lparr>tj := 1\<rparr>)"
    by (simp add: s_draining_def)
  have q3: "2 \<le> quit (s_draining\<lparr>quit := 3\<rparr>)"
    by simp
  from shutdown_signals [of 0 s_draining 0 cf0 "[]" "r_signals 1"]
    shutdown_signals [of 0 "s_draining\<lparr>quit := 3\<rparr>" 0 cf0 "[]" "r_signals 1"]
    shutdown_signals [of 0 "s_draining\<lparr>tj := 1\<rparr>" 0 cf0 "[r_ready]" "r_signals 1"]
    q q1 q3 b
  show ?thesis by simp
qed

text \<open>
  Claim C6. \<open>select\<close> is called on the descriptors of all proxy, SOCKS5 and tunnel
  listeners with a timeout of one second. When it reports listeners as ready, the workers
  started in the round are those of the accepted connections, in order: the proxy worker for
  a proxy listener, the SOCKS5 worker for a SOCKS5 listener, and for a tunnel listener (the
  descriptors being distinct) the tunnel worker with the target of that listener.
\<close>

theorem acceptor_dispatch:
  "set (watched cf) =
     fst ` set (proxyd_list cf) \<union> fst ` set (socksd_list cf) \<union> fst ` set (tunneld_list cf)
   \<and> tv = (1, 0)
   \<and> (select r (watched cf) (1, 0) = (n, ready) \<and> 0 < n \<longrightarrow>
        map fst (started (loop_body dbg ser cf s r)) =
          map fst (started s) @
          map (\<lambda>c. dispatch cf (listener c) (accepted c)) (filter (\<lambda>c. 0 \<le> accepted c) ready))
   \<and> (i \<in> fst ` set (proxyd_list cf) \<longrightarrow> dispatch cf i cd = Proxy_Worker cd)
   \<and> (i \<notin> fst ` set (proxyd_list cf) \<and> i \<in> fst ` set (socksd_list cf) \<longrightarrow>
        dispatch cf i cd = Socks5_Worker cd)
   \<and> (distinct (watched cf) \<and> (i, Some target) \<in> set (tunneld_list cf) \<longrightarrow>
        dispatch cf i cd = Tunnel_Worker cd (Some target))"
proof -
  have 1: "set (watched cf) =
     fst ` set (proxyd_list cf) \<union> fst ` set (socksd_list cf) \<union> fst ` set (tunneld_list cf)"
    by (auto simp: watched_def)
  have 2: "tv = (1, 0)" by (simp add: tv_def)
  have 3: "select r (watched cf) (1, 0) = (n, ready) \<and> 0 < n \<longrightarrow>
        map fst (started (loop_body dbg ser cf s r)) =
          map fst (started s) @
          map (\<lambda>c. dispatch cf (listener c) (accepted c)) (filter (\<lambda>c. 0 \<le> accepted c) ready)"
    using loop_body_workers [of r cf n ready dbg ser s] by (simp add: tv_def)
  have 4: "i \<in> fst ` set (proxyd_list cf) \<longrightarrow> dispatch cf i cd = Proxy_Worker cd"
    by (simp add: dispatch_def plist_in_def)
  have 5: "i \<notin> fst ` set (proxyd_list cf) \<and> i \<in> fst ` set (socksd_list cf) \<longrightarrow>
        dispatch cf i cd = Socks5_Worker cd"
    by (simp add: dispatch_def plist_in_def)
  have 6: "distinct (watched cf) \<and> (i, Some target) \<in> set (tunneld_list cf) \<longrightarrow>
        dispatch cf i cd = Tunnel_Worker cd (Some target)"
    using dispatch_tunnel [of cf i target cd] by blast
  from 1 2 3 4 5 6 show ?thesis by blast
qed

theorem acceptor_dispatch_witness:
  "map fst (started (loop_body 0 0 cf0 \<lparr>quit = 0, tc = 0, tj = 0, started = []\<rparr> r_ready)) =
     [Proxy_Worker 10, Socks5_Worker 11, Tunnel_Worker 12 (Some ''intra.local:22'')]"
proof -
  have w: "watched cf0 = [3, 4, 5]"
    by (simp add: watched_def cf0_fields)
  have s: "select r_ready (watched cf0) (1, 0) =
      (3, [\<lparr>listener = 3, accepted = 10, created = 0\<rparr>,
           \<lparr>listener = 4, accepted = 11, created = 0\<rparr>,
           \<lparr>listener = 5, accepted = 12, created = 0\<rparr>])"
    by (simp add: w r_ready_def)
  have d: "distinct (watched cf0)" by (simp add: w)
  have t: "(5, Some ''intra.local:22'') \<in> set (tunneld_list cf0)" by (simp add: cf0_fields)
  note a = acceptor_dispatch [where cf = cf0 and r = r_ready and n = 3 and dbg = 0 and ser = 0
      and s = "\<lparr>quit = 0, tc = 0, tj = 0, started = []\<rparr>"
      and ready = "[\<lparr>listener = 3, accepted = 10, created = 0\<rparr>,
           \<lparr>listener = 4, accepted = 11, created = 0\<rparr>,
           \<lparr>listener = 5, accepted = 12, created = 0\<rparr>]"]
  from a [of 3 10 "''x''"] a [of 4 11 "''x''"] a [of 5 12 "''intra.local:22''"] s d t
  show ?thesis by (simp add: cf0_fields)
qed

section \<open>The exit status\<close>

lemma parse_auth_exit: "parse_auth b sx auth creds = Inl e \<Longrightarrow> e = (Unknown_Auth, 1)"
  by (auto simp: parse_auth_def myexit_def split: if_splits)

lemma hash_option_exit: "hash_option sx chash field = Inl e \<Longrightarrow> e = (Invalid_Hash, 1)"
  by (auto simp: hash_option_def split: if_splits option.splits)

lemma load_password_exit: "load_password sx cf creds = Inl e \<Longrightarrow> e = (Invalid_Hash, 1)"
  by (auto simp: load_password_def Let_def split: if_splits sum.splits dest: hash_option_exit)

lemma change_uid_exit:
  "change_uid sx cf = Some e \<Longrightarrow> e \<in> {(Uid_Invalid, 1), (Setgid_Failed, 1), (Setuid_Failed, 1)}"
  by (auto simp: change_uid_def myexit_def Let_def split: if_splits option.splits sum.splits)

lemma write_pidfile_exit: "write_pidfile sx cf = Some e \<Longrightarrow> e = (Pidfile_Error, 1)"
  by (auto simp: write_pidfile_def myexit_def split: if_splits)


lemma startup_exit:
  assumes "startup b sx cf creds0 = Inl (p, status)"
  shows "p \<noteq> Loop_Left \<and>
     status = (if p \<in> {Pac_File_Missing, Parent_Missing, No_Proxy_Port, Unknown_Auth, Invalid_Hash,
                         Password_Missing, Fork_Failed, Uid_Invalid, Setgid_Failed, Setuid_Failed,
                         Pidfile_Error} then 1 else 0)"
proof (cases "parse_auth b sx (cauth cf) creds0")
  case (Inl e)
  with assms parse_auth_exit [OF Inl] show ?thesis
    by (auto simp: startup_def myexit_def croak_def split: if_splits)
next
  case (Inr c1)
  let ?c2 = "if cflags cf \<noteq> 0 then c1\<lparr>flags := cflags cf\<rparr> else c1"
  show ?thesis
  proof (cases "load_password sx cf ?c2")
    case (Inl e)
    with assms Inr load_password_exit [OF Inl] show ?thesis
      by (auto simp: startup_def myexit_def croak_def Let_def split: if_splits)
  next
    case l: (Inr cb)
    obtain c3 buf where cb: "cb = (c3, buf)" by (cases cb)
    show ?thesis
    proof (cases "change_uid sx cf")
      case (Some e)
      with assms Inr l cb change_uid_exit [OF Some] show ?thesis
        by (auto simp: startup_def myexit_def croak_def Let_def split: if_splits)
    next
      case None
      show ?thesis
      proof (cases "write_pidfile sx cf")
        case (Some e)
        with assms Inr l cb None write_pidfile_exit [OF Some] show ?thesis
          by (auto simp: startup_def myexit_def croak_def Let_def split: if_splits)
      next
        case n: None
        with assms Inr l cb None show ?thesis
          by (auto simp: startup_def myexit_def croak_def Let_def split: if_splits)
      qed
    qed
  qed
qed


lemma accept_loop_Some: "accept_loop dbg ser cf s rounds = Some s' \<Longrightarrow> \<not> loop_cond s'"
  by (induction rounds arbitrary: s) (auto split: if_splits)

lemma password_missing_user:
  "password_missing b cf (c\<lparr>user := u, domain := d\<rparr>) = password_missing b cf c"
  by (simp add: password_missing_def)

lemma loop_forced_run:
  "accept_loop 0 0 cf0 \<lparr>quit = 0, tc = 0, tj = 0, started = []\<rparr> [r_ready, r_signals 2] =
     Some \<lparr>quit = 3, tc = 3, tj = 0,
           started = [(Proxy_Worker 10, 0), (Socks5_Worker 11, 0),
                      (Tunnel_Worker 12 (Some ''intra.local:22''), 0)]\<rparr>"
proof -
  have 1: "loop_body 0 0 cf0 \<lparr>quit = 0, tc = 0, tj = 0, started = []\<rparr> r_ready =
      \<lparr>quit = 0, tc = 3, tj = 0,
       started = [(Proxy_Worker 10, 0), (Socks5_Worker 11, 0),
                  (Tunnel_Worker 12 (Some ''intra.local:22''), 0)]\<rparr>"
    by (simp add: loop_body_def r_ready_def watched_def tv_def cf0_fields dispatch_def plist_in_def
        plist_get_def)
  have 2: "loop_body 0 0 cf0 \<lparr>quit = 0, tc = 3, tj = 0,
       started = [(Proxy_Worker 10, 0), (Socks5_Worker 11, 0),
                  (Tunnel_Worker 12 (Some ''intra.local:22''), 0)]\<rparr> (r_signals 2) =
      \<lparr>quit = 3, tc = 3, tj = 0,
       started = [(Proxy_Worker 10, 0), (Socks5_Worker 11, 0),
                  (Tunnel_Worker 12 (Some ''intra.local:22''), 0)]\<rparr>"
    by (simp add: loop_body_def r_signals_def sighandler_def numeral_2_eq_2)
  have c0: "loop_cond \<lparr>quit = 0, tc = 0, tj = 0, started = []\<rparr>"
    by (simp add: loop_cond_def)
  have c1: "loop_cond \<lparr>quit = 0, tc = 3, tj = 0,
       started = [(Proxy_Worker 10, 0), (Socks5_Worker 11, 0),
                  (Tunnel_Worker 12 (Some ''intra.local:22''), 0)]\<rparr>"
    by (simp add: loop_cond_def)
  have c2: "\<not> loop_cond \<lparr>quit = 3, tc = 3, tj = 0,
       started = [(Proxy_Worker 10, 0), (Socks5_Worker 11, 0),
                  (Tunnel_Worker 12 (Some ''intra.local:22''), 0)]\<rparr>"
    by (simp add: loop_cond_def)
  show ?thesis
    by (simp only: accept_loop.simps c0 c1 c2 1 2 if_True if_False)
qed

text \<open>
  Claim C5 names a second shutdown signal as a case in which the process exits with a
  status other than 0. Here the three listeners each get a connection, then two signals
  arrive: the loop is left with \<open>quit = 3\<close> and three workers not joined, and the process
  ends with status 0.
\<close>

theorem forced_exit_counterexample:
  "accept_loop 0 0 cf0 \<lparr>quit = 0, tc = 0, tj = 0, started = []\<rparr> [r_ready, r_signals 2] =
     Some \<lparr>quit = 3, tc = 3, tj = 0,
           started = [(Proxy_Worker 10, 0), (Socks5_Worker 11, 0),
                      (Tunnel_Worker 12 (Some ''intra.local:22''), 0)]\<rparr>
   \<and> main b_pac sx0 cf0 auth0 0 0 [r_ready, r_signals 2] = Some (Loop_Left, 0)"
  by (simp only: main_def startup_cf0 loop_forced_run sum.case option.case simp_thms)

text \<open>
  Claim C5, amended. When the process ends, its status is 1 if it ends at one of the failed
  checks of the startup (PAC file, parent proxy, proxy port, Auth value, hash strings,
  missing password, fork, user identity, PID file) and 0 otherwise: a status other than 0
  means a failed startup. The process ends with status 0 when the accept loop is left,
  whether all workers were joined or a second signal forced the exit; the loop is only
  reached with a proxy port, a parent proxy (or PAC) and the required hashes. With a
  required hash absent (and no hash printing or detection asked for) the status is 1.
\<close>

theorem exit_status:
  assumes "main b sx cf creds0 dbg ser rounds = Some (p, status)"
  shows "status = (if p \<in> {Pac_File_Missing, Parent_Missing, No_Proxy_Port, Unknown_Auth, Invalid_Hash,
                            Password_Missing, Fork_Failed, Uid_Invalid, Setgid_Failed, Setuid_Failed,
                            Pidfile_Error} then 1 else 0)
       \<and> (p = Loop_Left \<longrightarrow>
            status = 0 \<and>
            (\<exists>d s. startup b sx cf creds0 = Inr d \<and>
                   accept_loop dbg ser cf \<lparr>quit = 0, tc = 0, tj = 0, started = []\<rparr> rounds = Some s \<and>
                   \<not> loop_cond s \<and>
                   proxyd_list cf \<noteq> [] \<and>
                   (parent_list cf \<noteq> [] \<or> (ENABLE_PACPARSER b \<and> pac cf \<noteq> 0)) \<and>
                   \<not> password_missing b cf (g_creds d)))
       \<and> (p \<noteq> Loop_Left \<longrightarrow> startup b sx cf creds0 = Inl (p, status))
       \<and> (interactivehash cf = 0 \<and> magic_detect cf = None \<and>
          parse_auth b sx (cauth cf) creds0 = Inr c1 \<and>
          load_password sx cf (if cflags cf \<noteq> 0 then c1\<lparr>flags := cflags cf\<rparr> else c1) = Inr (c3, buf) \<and>
          password_missing b cf
            (if ENABLE_KERBEROS b then c3\<lparr>haskrb := or (haskrb c3) (check_credential sx)\<rparr> else c3) \<longrightarrow>
            status = 1)"
proof (cases "startup b sx cf creds0")
  case (Inl e)
  with assms have e: "e = (p, status)" by (simp add: main_def)
  from startup_exit [OF Inl [unfolded e]] have
    n: "p \<noteq> Loop_Left" and
    st: "status = (if p \<in> {Pac_File_Missing, Parent_Missing, No_Proxy_Port, Unknown_Auth, Invalid_Hash,
                            Password_Missing, Fork_Failed, Uid_Invalid, Setgid_Failed, Setuid_Failed,
                            Pidfile_Error} then 1 else 0)"
    by blast+
  have 4: "status = 1"
    if "interactivehash cf = 0 \<and> magic_detect cf = None \<and>
          parse_auth b sx (cauth cf) creds0 = Inr c1 \<and>
          load_password sx cf (if cflags cf \<noteq> 0 then c1\<lparr>flags := cflags cf\<rparr> else c1) = Inr (c3, buf) \<and>
          password_missing b cf
            (if ENABLE_KERBEROS b then c3\<lparr>haskrb := or (haskrb c3) (check_credential sx)\<rparr> else c3)"
    using that Inl e by (auto simp: startup_def Let_def password_missing_user myexit_def croak_def
        split: if_splits)
  from n st 4 Inl e show ?thesis by blast
next
  case (Inr d)
  with assms obtain s where
    a: "accept_loop dbg ser cf \<lparr>quit = 0, tc = 0, tj = 0, started = []\<rparr> rounds = Some s"
    and p: "p = Loop_Left" and st: "status = 0"
    by (auto simp: main_def split: option.splits)
  from accept_loop_Some [OF a] have l: "\<not> loop_cond s" .
  from startup_Inr [OF Inr] obtain c1' c3' where
    c1': "parse_auth b sx (cauth cf) creds0 = Inr c1'" and
    c3': "load_password sx cf (if cflags cf \<noteq> 0 then c1'\<lparr>flags := cflags cf\<rparr> else c1') =
             Inr (c3', cpassword_freed d)" and
    g: "g_creds d =
             (if ENABLE_KERBEROS b then c3'\<lparr>haskrb := or (haskrb c3') (check_credential sx)\<rparr> else c3')
               \<lparr>user := cstr (cuser cf), domain := cstr (cdomain cf)\<rparr>" and
    m: "\<not> password_missing b cf (g_creds d)" and
    pr: "proxyd_list cf \<noteq> []" and
    pa: "parent_list cf \<noteq> [] \<or> (ENABLE_PACPARSER b \<and> pac cf \<noteq> 0)"
    by blast
  have 4: "\<not> (parse_auth b sx (cauth cf) creds0 = Inr c1 \<and>
          load_password sx cf (if cflags cf \<noteq> 0 then c1\<lparr>flags := cflags cf\<rparr> else c1) = Inr (c3, buf) \<and>
          password_missing b cf
            (if ENABLE_KERBEROS b then c3\<lparr>haskrb := or (haskrb c3) (check_credential sx)\<rparr> else c3))"
  proof
    assume h: "parse_auth b sx (cauth cf) creds0 = Inr c1 \<and>
          load_password sx cf (if cflags cf \<noteq> 0 then c1\<lparr>flags := cflags cf\<rparr> else c1) = Inr (c3, buf) \<and>
          password_missing b cf
            (if ENABLE_KERBEROS b then c3\<lparr>haskrb := or (haskrb c3) (check_credential sx)\<rparr> else c3)"
    with c1' have e1: "c1' = c1" by simp
    from c3' have "load_password sx cf (if cflags cf \<noteq> 0 then c1\<lparr>flags := cflags cf\<rparr> else c1) =
        Inr (c3', cpassword_freed d)"
      unfolding e1 .
    with h have e3: "c3' = c3" by simp
    from m have "\<not> password_missing b cf
        (if ENABLE_KERBEROS b then c3\<lparr>haskrb := or (haskrb c3) (check_credential sx)\<rparr> else c3)"
      unfolding g e3 password_missing_user .
    with h show False by simp
  qed
  from p st a l Inr m pr pa 4 show ?thesis by auto
qed


lemma cf_nopass_fields:
  "interactivehash cf_nopass = 0" "magic_detect cf_nopass = None" "pac cf_nopass = 0"
  "parent_list cf_nopass = [''proxy.corp:8080'']" "proxyd_list cf_nopass = [(3, None)]"
  "cauth cf_nopass = ''NTLMv2''" "cflags cf_nopass = 0" "cpassword cf_nopass = replicate 50 (CHR 0x00)"
  "cpassntlm2 cf_nopass = []" "cpassnt cf_nopass = []" "cpasslm cf_nopass = []"
  "cuser cf_nopass = ''alice''" "cdomain cf_nopass = ''corp''" "ntlmbasic cf_nopass = 0"
  by (simp_all add: cf_nopass_def cf0_fields)

lemma main_forced: "main b_pac sx0 cf0 auth0 0 0 [r_signals 2] = Some (Loop_Left, 0)"
proof -
  have c: "loop_cond \<lparr>quit = 0, tc = 0, tj = 0, started = []\<rparr>"
    by (simp add: loop_cond_def)
  have q: "quit (loop_body 0 0 cf0 \<lparr>quit = 0, tc = 0, tj = 0, started = []\<rparr> (r_signals 2)) = 3"
    by (simp add: loop_body_def r_signals_def sighandler_def numeral_2_eq_2)
  then have "\<not> loop_cond (loop_body 0 0 cf0 \<lparr>quit = 0, tc = 0, tj = 0, started = []\<rparr> (r_signals 2))"
    by (simp add: loop_cond_def)
  with c show ?thesis
    by (simp add: main_def startup_cf0)
qed

lemma main_nopass: "main b_pac sx0 cf_nopass auth0 0 0 [] = Some (Password_Missing, 1)"
proof -
  have a: "parse_auth b_pac sx0 (cauth cf_nopass) auth0 = Inr (auth0\<lparr>hashnt := 0, hashlm := 0, hashntlm2 := 1\<rparr>)"
    unfolding parse_auth_def strcasecmp_literals strlen_lower
    by (simp add: cf_nopass_fields cstr_def tolower_c_def)
  have z: "strlen (cpassword cf_nopass) = 0"
    by (simp add: cf_nopass_fields strlen_def cstr_def)
  have l: "load_password sx0 cf_nopass (auth0\<lparr>hashnt := 0, hashlm := 0, hashntlm2 := 1\<rparr>) =
      Inr (auth0\<lparr>hashnt := 0, hashlm := 0, hashntlm2 := 1\<rparr>, replicate 50 (CHR 0x00))"
    unfolding load_password_def z
    by (simp add: cf_nopass_fields hash_option_def strlen_def cstr_def auth0_def)
  have m: "password_missing b_pac cf_nopass
      (auth0\<lparr>hashnt := 0, hashlm := 0, hashntlm2 := 1, user := ''alice'', domain := ''corp''\<rparr>)"
    by (simp add: password_missing_def cf_nopass_fields auth0_def is_memory_all_zero_def
        list_all_replicate b_pac_def)
  have "startup b_pac sx0 cf_nopass auth0 = Inl (Password_Missing, 1)"
    unfolding startup_def a
    using m by (simp add: l b_pac_def cf_nopass_fields cstr_def myexit_def)
  then show ?thesis by (simp add: main_def)
qed

theorem exit_status_witness:
  "main b_pac sx0 cf0 auth0 0 0 [r_signals 2] = Some (Loop_Left, 0)
   \<and> main b_pac sx0 cf_nopass auth0 0 0 [] = Some (Password_Missing, 1)
   \<and> startup b_pac sx0 cf_nopass auth0 = Inl (Password_Missing, 1)
   \<and> proxyd_list cf0 \<noteq> []"
proof -
  from exit_status [OF main_forced, of auth0 auth0 "[]"] have p: "proxyd_list cf0 \<noteq> []"
    by blast
  from exit_status [OF main_nopass, of auth0 auth0 "[]"]
  have s: "startup b_pac sx0 cf_nopass auth0 = Inl (Password_Missing, 1)"
    by simp
  from p s main_forced main_nopass show ?thesis by simp
qed

end
